theory Spec2Isabelle
  imports Main "HOL-Library.Word"
begin

section \<open>Data model of package pcre (src/pcre.go)\<close>

text \<open>
  The package wraps the C library PCRE. Pointers into C memory are opaque handles; a
  nullable C pointer is a \<open>handle option\<close> with \<open>None\<close> for \<open>nil\<close>. A Go \<open>*Regexp\<close>
  is the address of a \<open>Regexp\<close> object in the Go heap; a Go \<open>[]byte\<close> is a byte list,
  optional where the code tells \<open>nil\<close> from an empty slice; a Go \<open>string\<close> is a byte
  list. Go's \<open>int\<close> is modelled as \<open>int\<close>: every integer the code computes is a sum or
  a small multiple of subject lengths and of 32-bit values handed back by the library,
  which does not leave the 64-bit range.
\<close>

type_synonym handle = nat
type_synonym addr = nat
type_synonym bytes = "char list"

text \<open>\<open>type Regexp struct { ptr *C.pcre; extra *C.pcre_extra }\<close>\<close>

record Regexp =
  ptr :: "handle option"
  extra :: "handle option"

text \<open>
  \<open>type Matcher struct\<close>, field by field. \<open>re\<close> is a pointer to a \<open>Regexp\<close> object,
  \<open>err\<close> is \<open>nil\<close> or an error with its message.
\<close>

record Matcher =
  re :: "addr option"
  groups :: int
  ovector :: "int list"
  matches :: bool
  partial :: bool
  subjects :: string
  subjectb :: "bytes option"
  err :: "string option"

text \<open>\<open>type Match struct { Finding string; Loc []int }\<close>\<close>

record Match =
  Finding :: string
  Loc :: "int list"

text \<open>
  The state outside the matcher: the Go heap of \<open>Regexp\<close> objects, the blocks of C
  memory that the library has allocated and not yet freed, and the objects that carry a
  finalizer (\<open>runtime.SetFinalizer\<close>).
\<close>

record world =
  regexps :: "addr \<Rightarrow> Regexp"
  allocated :: "handle set"
  finalizer :: "addr set"

text \<open>
  The C side, taken as a parameter: \<open>pcre.h\<close> and the library are not part of the Go
  sources. The record holds the header constants the Go code reads and the library
  functions it calls. \<open>pcre_exec\<close> receives the compiled pattern, the study data, the
  subject buffer, the length, the start offset, the options, the offset vector and its
  size, and gives back its result code and the integers it wrote to the front of the
  offset vector. A handle names one compiled pattern for good: the capture count is a
  function of the handle, and the reuse of an address after a free is not modelled.
\<close>

record pcre_lib =
  PCRE_ERROR_NOMATCH :: int
  PCRE_ERROR_BADOPTION :: int
  PCRE_ERROR_PARTIAL :: int
  PCRE_STUDY_JIT_COMPILE :: int
  pcre_fullinfo_capturecount :: "handle \<Rightarrow> int"
  pcre_study :: "handle option \<Rightarrow> int \<Rightarrow> handle option \<times> string option"
  pcre_exec :: "handle option \<Rightarrow> handle option \<Rightarrow> bytes \<Rightarrow> int \<Rightarrow> int \<Rightarrow> int
                  \<Rightarrow> int list \<Rightarrow> int \<Rightarrow> int \<times> int list"

text \<open>Every way the Go code can stop abnormally.\<close>

datatype panic =
    Uninitialized string
  | IndexOutOfRange
  | SliceBounds
  | NilDereference
  | MakeSliceLen
  | InvalidFree

section \<open>Go primitives\<close>

text \<open>The conversion \<open>C.int(x)\<close> of a Go \<open>int\<close>: truncation to 32 bits, signed.\<close>

definition C_int :: "int \<Rightarrow> int" where
  "C_int x = sint (word_of_int x :: 32 word)"

text \<open>\<open>xs[i]\<close> panics out of range.\<close>

definition index :: "'a list \<Rightarrow> int \<Rightarrow> panic + 'a" where
  "index xs i = (if 0 \<le> i \<and> i < int (length xs) then Inr (xs ! nat i) else Inl IndexOutOfRange)"

text \<open>
  \<open>s[lo:hi]\<close> on a string panics unless \<open>0 \<le> lo \<le> hi \<le> len(s)\<close>. The same function
  models the expression on a byte slice, whose upper bound in Go is the capacity: a
  slice is taken to have no spare capacity.
\<close>

definition slice :: "'a list \<Rightarrow> int \<Rightarrow> int \<Rightarrow> panic + 'a list" where
  "slice xs lo hi =
     (if 0 \<le> lo \<and> lo \<le> hi \<and> hi \<le> int (length xs)
      then Inr (take (nat hi - nat lo) (drop (nat lo) xs))
      else Inl SliceBounds)"

text \<open>A slice expression on a possibly nil byte slice: \<open>nil[0:0]\<close> is \<open>nil\<close>.\<close>

definition slice_b :: "bytes option \<Rightarrow> int \<Rightarrow> int \<Rightarrow> panic + bytes option" where
  "slice_b b lo hi =
     (case b of
        None \<Rightarrow> (if lo = 0 \<and> hi = 0 then Inr None else Inl SliceBounds)
      | Some xs \<Rightarrow> (case slice xs lo hi of Inl e \<Rightarrow> Inl e | Inr ys \<Rightarrow> Inr (Some ys)))"

definition len_b :: "bytes option \<Rightarrow> int" where
  "len_b b = (case b of None \<Rightarrow> 0 | Some xs \<Rightarrow> int (length xs))"

text \<open>\<open>strconv.Itoa\<close>\<close>

fun digits :: "nat \<Rightarrow> string" where
  "digits n = (if n < 10 then [''0123456789'' ! n]
               else digits (n div 10) @ [''0123456789'' ! (n mod 10)])"

declare digits.simps [simp del]

definition Itoa :: "int \<Rightarrow> string" where
  "Itoa i = (if i < 0 then CHR ''-'' # digits (nat (- i)) else digits (nat i))"

text \<open>\<open>func maxInt(a, b int) int\<close>\<close>

definition maxInt :: "int \<Rightarrow> int \<Rightarrow> int" where
  "maxInt a b = (if a > b then a else b)"

section \<open>Regexp\<close>

text \<open>\<open>func pcreGroups(ptr *C.pcre) (count C.int)\<close>\<close>

definition pcreGroups :: "pcre_lib \<Rightarrow> handle \<Rightarrow> int" where
  "pcreGroups L h = pcre_fullinfo_capturecount L h"

text \<open>\<open>func (re *Regexp) Groups() int\<close>\<close>

definition Regexp_Groups :: "pcre_lib \<Rightarrow> world \<Rightarrow> addr \<Rightarrow> panic + int" where
  "Regexp_Groups L w a =
     (case ptr (regexps w a) of
        None \<Rightarrow> Inl (Uninitialized ''Regexp.Groups: uninitialized'')
      | Some h \<Rightarrow> Inr (pcreGroups L h))"

text \<open>
  \<open>pcre_free\<close> and \<open>pcre_free_study\<close>: releasing a block that is not allocated is the
  fault of a double free.
\<close>

definition c_free :: "world \<Rightarrow> handle \<Rightarrow> panic + world" where
  "c_free w h = (if h \<in> allocated w then Inr (w\<lparr>allocated := allocated w - {h}\<rparr>)
                 else Inl InvalidFree)"

definition set_ptr :: "world \<Rightarrow> addr \<Rightarrow> handle option \<Rightarrow> world" where
  "set_ptr w a p = w\<lparr>regexps := (regexps w)(a := (regexps w a)\<lparr>ptr := p\<rparr>)\<rparr>"

definition set_extra :: "world \<Rightarrow> addr \<Rightarrow> handle option \<Rightarrow> world" where
  "set_extra w a p = w\<lparr>regexps := (regexps w)(a := (regexps w a)\<lparr>extra := p\<rparr>)\<rparr>"

text \<open>\<open>func (re *Regexp) FreeRegexp()\<close>\<close>

definition FreeRegexp :: "world \<Rightarrow> addr \<Rightarrow> panic + world" where
  "FreeRegexp w a =
     (case (case ptr (regexps w a) of
              None \<Rightarrow> Inr w
            | Some h \<Rightarrow> (case c_free w h of Inl e \<Rightarrow> Inl e | Inr w1 \<Rightarrow> Inr (set_ptr w1 a None))) of
        Inl e \<Rightarrow> Inl e
      | Inr w2 \<Rightarrow>
          (case (case extra (regexps w2 a) of
                   None \<Rightarrow> Inr w2
                 | Some x \<Rightarrow> (case c_free w2 x of Inl e \<Rightarrow> Inl e
                              | Inr w3 \<Rightarrow> Inr (set_extra w3 a None))) of
             Inl e \<Rightarrow> Inl e
           | Inr w4 \<Rightarrow> Inr (w4\<lparr>finalizer := finalizer w4 - {a}\<rparr>)))"

text \<open>
  \<open>func (re *Regexp) Study(flags int) error\<close>. The result is the new state and the
  returned error. The block that \<open>pcre_study\<close> hands back is newly allocated.
\<close>

definition Study :: "pcre_lib \<Rightarrow> world \<Rightarrow> addr \<Rightarrow> int \<Rightarrow> world \<times> string option" where
  "Study L w a flags =
     (if extra (regexps w a) \<noteq> None
      then (w, Some ''Study: Regexp has already been optimized'')
      else
        let flags1 = (if flags = 0 then PCRE_STUDY_JIT_COMPILE L else flags);
            (x, e) = pcre_study L (ptr (regexps w a)) (C_int flags1);
            w1 = (set_extra w a x)\<lparr>allocated := allocated w \<union> set_option x\<rparr>
        in (case e of
              Some msg \<Rightarrow> (w1, Some msg)
            | None \<Rightarrow> (w1, None)))"

section \<open>Matcher\<close>

text \<open>\<open>new(Matcher)\<close>: every field has its zero value.\<close>

definition new_Matcher :: Matcher where
  "new_Matcher = \<lparr>re = None, groups = 0, ovector = [], matches = False, partial = False,
                   subjects = [], subjectb = None, err = None\<rparr>"

text \<open>\<open>func (m *Matcher) Init(re *Regexp)\<close>\<close>

definition Init :: "pcre_lib \<Rightarrow> world \<Rightarrow> Matcher \<Rightarrow> addr \<Rightarrow> panic + Matcher" where
  "Init L w m a =
     (case ptr (regexps w a) of
        None \<Rightarrow> Inl (Uninitialized ''Matcher.Init: uninitialized'')
      | Some h \<Rightarrow>
          let m1 = m\<lparr>matches := False, err := None\<rparr> in
          if (case re m1 of None \<Rightarrow> False
              | Some b \<Rightarrow> ptr (regexps w b) \<noteq> None \<and> ptr (regexps w b) = ptr (regexps w a))
          then Inr m1
          else
            (case Regexp_Groups L w a of
               Inl e \<Rightarrow> Inl e
             | Inr g \<Rightarrow>
                 let m2 = m1\<lparr>re := Some a, groups := g\<rparr>;
                     ovectorlen = 3 * (1 + groups m2)
                 in if int (length (ovector m2)) < ovectorlen
                    then Inr (m2\<lparr>ovector := replicate (nat ovectorlen) 0\<rparr>)
                    else Inr m2))"

text \<open>\<open>func (re *Regexp) NewMatcher() (m *Matcher)\<close>\<close>

definition NewMatcher :: "pcre_lib \<Rightarrow> world \<Rightarrow> addr \<Rightarrow> panic + Matcher" where
  "NewMatcher L w a = Init L w new_Matcher a"

text \<open>
  The library writes into the caller's buffer, whose length it cannot change: the
  integers written replace the front of the offset vector.
\<close>

definition overwrite :: "int list \<Rightarrow> int list \<Rightarrow> int list" where
  "overwrite old written = take (length old) written @ drop (length written) old"

text \<open>
  \<open>func (m *Matcher) exec(subjectptr *C.char, length, flags int) int\<close>. The buffer
  behind \<open>subjectptr\<close> is passed by its content. \<open>&m.ovector[0]\<close> panics on an empty
  offset vector.
\<close>

definition exec :: "pcre_lib \<Rightarrow> world \<Rightarrow> Matcher \<Rightarrow> bytes \<Rightarrow> int \<Rightarrow> int \<Rightarrow> panic + int \<times> Matcher" where
  "exec L w m buf length1 flags =
     (case re m of
        None \<Rightarrow> Inl NilDereference
      | Some b \<Rightarrow>
          if ovector m = [] then Inl IndexOutOfRange
          else
            let (rc, written) =
                  pcre_exec L (ptr (regexps w b)) (extra (regexps w b)) buf (C_int length1) 0
                    (C_int flags) (ovector m) (C_int (int (length (ovector m))))
            in Inr (rc, m\<lparr>ovector := overwrite (ovector m) written\<rparr>))"

definition uninitialized :: "world \<Rightarrow> Matcher \<Rightarrow> bool" where
  "uninitialized w m = (case re m of None \<Rightarrow> True | Some b \<Rightarrow> ptr (regexps w b) = None)"

definition nullbyte :: bytes where
  "nullbyte = [CHR 0x00]"

text \<open>\<open>func (m *Matcher) Exec(subject []byte, flags int) int\<close>\<close>

definition Exec :: "pcre_lib \<Rightarrow> world \<Rightarrow> Matcher \<Rightarrow> bytes option \<Rightarrow> int \<Rightarrow> panic + int \<times> Matcher" where
  "Exec L w m subject flags =
     (if uninitialized w m then Inl (Uninitialized ''Matcher.Exec: uninitialized'')
      else
        let length1 = len_b subject;
            m1 = m\<lparr>subjects := [], subjectb := subject\<rparr>;
            buf = (case subject of None \<Rightarrow> nullbyte
                   | Some xs \<Rightarrow> if length1 = 0 then nullbyte else xs)
        in exec L w m1 buf length1 flags)"

text \<open>\<open>func (m *Matcher) ExecString(subject string, flags int) int\<close>\<close>

definition ExecString :: "pcre_lib \<Rightarrow> world \<Rightarrow> Matcher \<Rightarrow> string \<Rightarrow> int \<Rightarrow> panic + int \<times> Matcher" where
  "ExecString L w m subject flags =
     (if uninitialized w m then Inl (Uninitialized ''Matcher.ExecString: uninitialized'')
      else
        let length1 = int (length subject);
            m1 = m\<lparr>subjects := subject, subjectb := None\<rparr>;
            buf = (if length1 = 0 then nullbyte else subject)
        in exec L w m1 buf length1 flags)"

text \<open>\<open>func matched(rc int) (bool, error)\<close>\<close>

definition matched :: "pcre_lib \<Rightarrow> int \<Rightarrow> bool \<times> string option" where
  "matched L rc =
     (if rc \<ge> 0 \<or> rc = PCRE_ERROR_PARTIAL L then (True, None)
      else if rc = PCRE_ERROR_NOMATCH L then (False, None)
      else if rc = PCRE_ERROR_BADOPTION L then (False, Some ''PCRE.Match: invalid option flag'')
      else (False, Some (''unexpected return code from pcre_exec: '' @ Itoa rc)))"

text \<open>The three assignments that end \<open>Match\<close> and \<open>MatchString\<close>.\<close>

definition record_rc :: "pcre_lib \<Rightarrow> int \<Rightarrow> Matcher \<Rightarrow> bool \<times> Matcher" where
  "record_rc L rc m =
     (let (ok, e) = matched L rc;
          m1 = m\<lparr>matches := ok, err := e\<rparr>;
          m2 = m1\<lparr>partial := (rc = PCRE_ERROR_PARTIAL L)\<rparr>
      in (matches m2, m2))"

text \<open>\<open>func (m *Matcher) Match(subject []byte, flags int) bool\<close>\<close>

definition Match :: "pcre_lib \<Rightarrow> world \<Rightarrow> Matcher \<Rightarrow> bytes option \<Rightarrow> int \<Rightarrow> panic + bool \<times> Matcher" where
  "Match L w m subject flags =
     (if err m \<noteq> None then Inr (False, m)
      else if uninitialized w m then Inl (Uninitialized ''Matcher.Match: uninitialized'')
      else (case Exec L w m subject flags of
              Inl e \<Rightarrow> Inl e
            | Inr (rc, m1) \<Rightarrow> Inr (record_rc L rc m1)))"

text \<open>\<open>func (m *Matcher) MatchString(subject string, flags int) bool\<close>\<close>

definition MatchString :: "pcre_lib \<Rightarrow> world \<Rightarrow> Matcher \<Rightarrow> string \<Rightarrow> int \<Rightarrow> panic + bool \<times> Matcher" where
  "MatchString L w m subject flags =
     (if err m \<noteq> None then Inr (False, m)
      else if uninitialized w m then Inl (Uninitialized ''Matcher.MatchString: uninitialized'')
      else (case ExecString L w m subject flags of
              Inl e \<Rightarrow> Inl e
            | Inr (rc, m1) \<Rightarrow> Inr (record_rc L rc m1)))"

text \<open>\<open>func (m *Matcher) Present(group int) bool\<close>\<close>

definition Present :: "Matcher \<Rightarrow> int \<Rightarrow> panic + bool" where
  "Present m group1 =
     (case index (ovector m) (2 * group1) of Inl e \<Rightarrow> Inl e | Inr start \<Rightarrow> Inr (start \<ge> 0))"

text \<open>\<open>func (m *Matcher) Group(group int) []byte\<close>; the result \<open>None\<close> is the nil slice.\<close>

definition Group :: "Matcher \<Rightarrow> int \<Rightarrow> panic + bytes option" where
  "Group m group1 =
     (case index (ovector m) (2 * group1) of
        Inl e \<Rightarrow> Inl e
      | Inr start \<Rightarrow>
          (case index (ovector m) (2 * group1 + 1) of
             Inl e \<Rightarrow> Inl e
           | Inr end1 \<Rightarrow>
               if start \<ge> 0 then
                 (if subjectb m \<noteq> None then slice_b (subjectb m) start end1
                  else (case slice (subjects m) start end1 of
                          Inl e \<Rightarrow> Inl e
                        | Inr s \<Rightarrow> Inr (Some s)))
               else Inr None))"

text \<open>\<open>func (m *Matcher) GroupString(group int) string\<close>\<close>

definition GroupString :: "Matcher \<Rightarrow> int \<Rightarrow> panic + string" where
  "GroupString m group1 =
     (case index (ovector m) (2 * group1) of
        Inl e \<Rightarrow> Inl e
      | Inr start \<Rightarrow>
          (case index (ovector m) (2 * group1 + 1) of
             Inl e \<Rightarrow> Inl e
           | Inr end1 \<Rightarrow>
               if start \<ge> 0 then
                 (if subjectb m \<noteq> None
                  then (case slice_b (subjectb m) start end1 of
                          Inl e \<Rightarrow> Inl e
                        | Inr b \<Rightarrow> Inr (case b of None \<Rightarrow> [] | Some xs \<Rightarrow> xs))
                  else slice (subjects m) start end1)
               else Inr []))"

text \<open>
  \<open>func (m *Matcher) Extract() [][]byte\<close>. The loop \<open>for i := 1; i <= m.groups; i++\<close>
  is \<open>Extract_loop\<close>; the outer \<open>None\<close> is the nil result.
\<close>

function Extract_loop :: "Matcher \<Rightarrow> int \<Rightarrow> bytes option list \<Rightarrow> panic + bytes option list" where
  "Extract_loop m i extract =
     (if i \<le> groups m then
        (case index (ovector m) (2 * i) of
           Inl e \<Rightarrow> Inl e
         | Inr x0 \<Rightarrow>
             (case index (ovector m) (2 * i + 1) of
                Inl e \<Rightarrow> Inl e
              | Inr x1 \<Rightarrow>
                  (case slice_b (subjectb m) x0 x1 of
                     Inl e \<Rightarrow> Inl e
                   | Inr s \<Rightarrow>
                       if 0 \<le> i \<and> i < int (length extract)
                       then Extract_loop m (i + 1) (extract[nat i := s])
                       else Inl IndexOutOfRange)))
      else Inr extract)"
  by pat_completeness auto
termination
  by (relation "measure (\<lambda>(m, i, extract). nat (groups m + 1 - i))") auto

declare Extract_loop.simps [simp del]

definition Extract :: "Matcher \<Rightarrow> panic + bytes option list option" where
  "Extract m =
     (if \<not> matches m then Inr None
      else if groups m + 1 < 0 then Inl MakeSliceLen
      else
        let extract = replicate (nat (groups m + 1)) None in
        if extract = [] then Inl IndexOutOfRange
        else (case Extract_loop m 1 (extract[0 := subjectb m]) of
                Inl e \<Rightarrow> Inl e
              | Inr ex \<Rightarrow> Inr (Some ex)))"

text \<open>\<open>func (m *Matcher) ExtractString() []string\<close>\<close>

function ExtractString_loop :: "Matcher \<Rightarrow> int \<Rightarrow> string list \<Rightarrow> panic + string list" where
  "ExtractString_loop m i extract =
     (if i \<le> groups m then
        (case index (ovector m) (2 * i) of
           Inl e \<Rightarrow> Inl e
         | Inr x0 \<Rightarrow>
             (case index (ovector m) (2 * i + 1) of
                Inl e \<Rightarrow> Inl e
              | Inr x1 \<Rightarrow>
                  (case slice (subjects m) x0 x1 of
                     Inl e \<Rightarrow> Inl e
                   | Inr s \<Rightarrow>
                       if 0 \<le> i \<and> i < int (length extract)
                       then ExtractString_loop m (i + 1) (extract[nat i := s])
                       else Inl IndexOutOfRange)))
      else Inr extract)"
  by pat_completeness auto
termination
  by (relation "measure (\<lambda>(m, i, extract). nat (groups m + 1 - i))") auto

declare ExtractString_loop.simps [simp del]

definition ExtractString :: "Matcher \<Rightarrow> panic + string list option" where
  "ExtractString m =
     (if \<not> matches m then Inr None
      else if groups m + 1 < 0 then Inl MakeSliceLen
      else
        let extract = replicate (nat (groups m + 1)) [] in
        if extract = [] then Inl IndexOutOfRange
        else (case ExtractString_loop m 1 (extract[0 := subjects m]) of
                Inl e \<Rightarrow> Inl e
              | Inr ex \<Rightarrow> Inr (Some ex)))"

section \<open>Convenience operations\<close>

text \<open>\<open>func (re *Regexp) Matcher(subject []byte, flags int) (m *Matcher)\<close>\<close>

definition Regexp_Matcher :: "pcre_lib \<Rightarrow> world \<Rightarrow> addr \<Rightarrow> bytes option \<Rightarrow> int \<Rightarrow> panic + Matcher" where
  "Regexp_Matcher L w a subject flags =
     (case NewMatcher L w a of
        Inl e \<Rightarrow> Inl e
      | Inr m \<Rightarrow> (case Match L w m subject flags of Inl e \<Rightarrow> Inl e | Inr (ok, m1) \<Rightarrow> Inr m1))"

text \<open>\<open>func (re *Regexp) MatcherString(subject string, flags int) (m *Matcher)\<close>\<close>

definition MatcherString :: "pcre_lib \<Rightarrow> world \<Rightarrow> addr \<Rightarrow> string \<Rightarrow> int \<Rightarrow> panic + Matcher" where
  "MatcherString L w a subject flags =
     (case NewMatcher L w a of
        Inl e \<Rightarrow> Inl e
      | Inr m \<Rightarrow> (case MatchString L w m subject flags of Inl e \<Rightarrow> Inl e | Inr (ok, m1) \<Rightarrow> Inr m1))"

text \<open>
  \<open>func (re *Regexp) ReplaceAll(bytes, repl []byte, flags int) ([]byte, error)\<close>.
  The loop \<open>for m.matches\<close> has no bound in the source, so it is a partial function:
  \<open>None\<close> is the loop that never ends. One pass of the body is \<open>ReplaceAll_body\<close>.
\<close>

definition ReplaceAll_body ::
  "pcre_lib \<Rightarrow> world \<Rightarrow> bytes \<Rightarrow> int \<Rightarrow> Matcher \<Rightarrow> bytes option \<Rightarrow> bytes
     \<Rightarrow> panic + Matcher \<times> bytes option \<times> bytes" where
  "ReplaceAll_body L w repl flags m bytes1 r =
     (case index (ovector m) 0 of
        Inl e \<Rightarrow> Inl e
      | Inr o0 \<Rightarrow>
          (case slice_b bytes1 0 o0 of
             Inl e \<Rightarrow> Inl e
           | Inr pre \<Rightarrow>
               let r1 = (r @ (case pre of None \<Rightarrow> [] | Some xs \<Rightarrow> xs)) @ repl in
               (case index (ovector m) 1 of
                  Inl e \<Rightarrow> Inl e
                | Inr o1 \<Rightarrow>
                    (case slice_b bytes1 o1 (len_b bytes1) of
                       Inl e \<Rightarrow> Inl e
                     | Inr bytes2 \<Rightarrow>
                         (case Match L w m bytes2 flags of
                            Inl e \<Rightarrow> Inl e
                          | Inr (ok, m1) \<Rightarrow> Inr (m1, bytes2, r1))))))"

partial_function (option) ReplaceAll_loop ::
  "pcre_lib \<Rightarrow> world \<Rightarrow> bytes \<Rightarrow> int \<Rightarrow> Matcher \<Rightarrow> bytes option \<Rightarrow> bytes
     \<Rightarrow> (panic + bytes \<times> string option) option" where
  "ReplaceAll_loop L w repl flags m bytes1 r =
     (if matches m then
        (case ReplaceAll_body L w repl flags m bytes1 r of
           Inl e \<Rightarrow> Some (Inl e)
         | Inr (m1, bytes2, r1) \<Rightarrow> ReplaceAll_loop L w repl flags m1 bytes2 r1)
      else Some (Inr (r @ (case bytes1 of None \<Rightarrow> [] | Some xs \<Rightarrow> xs), err m)))"

declare ReplaceAll_loop.simps [code]

definition ReplaceAll ::
  "pcre_lib \<Rightarrow> world \<Rightarrow> addr \<Rightarrow> bytes option \<Rightarrow> bytes \<Rightarrow> int \<Rightarrow> (panic + bytes \<times> string option) option" where
  "ReplaceAll L w a bytes1 repl flags =
     (case Regexp_Matcher L w a bytes1 flags of
        Inl e \<Rightarrow> Some (Inl e)
      | Inr m \<Rightarrow> ReplaceAll_loop L w repl flags m bytes1 [])"

text \<open>
  \<open>func (re *Regexp) FindAll(subject string, flags int) ([]Match, error)\<close>. The loop
  is \<open>FindAll_loop\<close>, with the matcher, the offset and the matches found so far as its
  state.
\<close>

function FindAll_loop ::
  "pcre_lib \<Rightarrow> world \<Rightarrow> string \<Rightarrow> int \<Rightarrow> Matcher \<Rightarrow> int \<Rightarrow> Match list
     \<Rightarrow> panic + Match list \<times> string option" where
  "FindAll_loop L w subject flags m offset matches1 =
     (if matches m then
        (case index (ovector m) 0 of
           Inl e \<Rightarrow> Inl e
         | Inr o0 \<Rightarrow>
             (case index (ovector m) 1 of
                Inl e \<Rightarrow> Inl e
              | Inr o1 \<Rightarrow>
                  let leftIdx = o0 + offset; rightIdx = o1 + offset in
                  (case slice subject leftIdx rightIdx of
                     Inl e \<Rightarrow> Inl e
                   | Inr f \<Rightarrow>
                       let matches2 = matches1 @ [\<lparr>Finding = f, Loc = [leftIdx, rightIdx]\<rparr>];
                           offset1 = offset + maxInt 1 o1
                       in if offset1 < int (length subject) then
                            (case slice subject offset1 (int (length subject)) of
                               Inl e \<Rightarrow> Inl e
                             | Inr rest \<Rightarrow>
                                 (case MatchString L w m rest flags of
                                    Inl e \<Rightarrow> Inl e
                                  | Inr (ok, m1) \<Rightarrow>
                                      FindAll_loop L w subject flags m1 offset1 matches2))
                          else Inr (matches2, err m))))
      else Inr (matches1, err m))"
  by pat_completeness auto
termination
  by (relation "measure (\<lambda>(L, w, subject, flags, m, offset, matches1).
                   nat (int (length subject) - offset))")
     (auto simp: maxInt_def split: if_splits)

declare FindAll_loop.simps [simp del]

definition FindAll ::
  "pcre_lib \<Rightarrow> world \<Rightarrow> addr \<Rightarrow> string \<Rightarrow> int \<Rightarrow> panic + Match list \<times> string option" where
  "FindAll L w a subject flags =
     (case MatcherString L w a subject flags of
        Inl e \<Rightarrow> Inl e
      | Inr m \<Rightarrow> FindAll_loop L w subject flags m 0 [])"

section \<open>Properties of the library and of the state that the theorems refer to\<close>

text \<open>
  The three result codes that \<open>matched\<close> tells apart are negative and pairwise
  different, as in every \<open>pcre.h\<close>.
\<close>

definition error_codes_ok :: "pcre_lib \<Rightarrow> bool" where
  "error_codes_ok L =
     (PCRE_ERROR_NOMATCH L < 0 \<and> PCRE_ERROR_BADOPTION L < 0 \<and> PCRE_ERROR_PARTIAL L < 0 \<and>
      PCRE_ERROR_NOMATCH L \<noteq> PCRE_ERROR_BADOPTION L \<and>
      PCRE_ERROR_NOMATCH L \<noteq> PCRE_ERROR_PARTIAL L \<and>
      PCRE_ERROR_BADOPTION L \<noteq> PCRE_ERROR_PARTIAL L)"

text \<open>
  The condition of the fast path of \<open>Init\<close>:
  \<open>m.re != nil && m.re.ptr != nil && m.re.ptr == re.ptr\<close>.
\<close>

definition same_handle :: "world \<Rightarrow> Matcher \<Rightarrow> addr \<Rightarrow> bool" where
  "same_handle w m a =
     (case re m of None \<Rightarrow> False
      | Some b \<Rightarrow> ptr (regexps w b) \<noteq> None \<and> ptr (regexps w b) = ptr (regexps w a))"

text \<open>
  The invariant of a matcher: while it is bound to a compiled pattern, the cached group
  count is the pattern's and the offset vector has room for it.
\<close>

definition bound_ok :: "pcre_lib \<Rightarrow> world \<Rightarrow> Matcher \<Rightarrow> bool" where
  "bound_ok L w m =
     (case re m of None \<Rightarrow> True
      | Some b \<Rightarrow>
          (case ptr (regexps w b) of None \<Rightarrow> True
           | Some h \<Rightarrow> groups m = pcreGroups L h \<and>
                       3 * (1 + groups m) \<le> int (length (ovector m))))"

text \<open>
  The \<open>Regexp\<close> at an address owns its handles: they are allocated blocks, and two
  different ones.
\<close>

definition owns :: "world \<Rightarrow> addr \<Rightarrow> bool" where
  "owns w a =
     ((case ptr (regexps w a) of None \<Rightarrow> True | Some h \<Rightarrow> h \<in> allocated w) \<and>
      (case extra (regexps w a) of None \<Rightarrow> True
       | Some x \<Rightarrow> x \<in> allocated w \<and> ptr (regexps w a) \<noteq> Some x))"

text \<open>The subject that the matcher recorded, whichever of the two fields holds it.\<close>

definition subject_of :: "Matcher \<Rightarrow> bytes" where
  "subject_of m = (case subjectb m of None \<Rightarrow> subjects m | Some xs \<Rightarrow> xs)"

section \<open>Example libraries\<close>

text \<open>
  Concrete libraries on which the functions can be run. Their constants are those of
  PCRE 8; the pattern has \<open>g\<close> capture groups, and \<open>pcre_exec\<close> answers by \<open>run\<close> on the
  subject, whatever the handle. \<open>literal_run c\<close> is what PCRE does for the pattern of
  the single character \<open>c\<close>, \<open>star_run c\<close> what it does for \<open>c*\<close>; \<open>fixed_run\<close> answers
  the same on every subject.
\<close>

definition example_lib :: "int \<Rightarrow> (bytes \<Rightarrow> int \<times> int list) \<Rightarrow> pcre_lib" where
  "example_lib g run =
     \<lparr>PCRE_ERROR_NOMATCH = - 1, PCRE_ERROR_BADOPTION = - 3, PCRE_ERROR_PARTIAL = - 12,
      PCRE_STUDY_JIT_COMPILE = 1,
      pcre_fullinfo_capturecount = (\<lambda>h. g),
      pcre_study = (\<lambda>p f. (None, None)),
      pcre_exec = (\<lambda>p x buf len1 start opts ov n. run (take (nat len1) buf))\<rparr>"

definition literal_run :: "char \<Rightarrow> bytes \<Rightarrow> int \<times> int list" where
  "literal_run c s =
     (let i = length (takeWhile (\<lambda>x. x \<noteq> c) s)
      in if i < length s then (1, [int i, int i + 1]) else (- 1, []))"

definition star_run :: "char \<Rightarrow> bytes \<Rightarrow> int \<times> int list" where
  "star_run c s = (1, [0, int (length (takeWhile (\<lambda>x. x = c) s))])"

definition fixed_run :: "int \<Rightarrow> int list \<Rightarrow> bytes \<Rightarrow> int \<times> int list" where
  "fixed_run rc written s = (rc, written)"

text \<open>
  A world with one compiled pattern, at address 0 with handle 7, not studied; every
  other address holds a \<open>Regexp\<close> that was never compiled.
\<close>

definition example_world :: world where
  "example_world =
     \<lparr>regexps = (\<lambda>a. \<lparr>ptr = (if a = 0 then Some 7 else None), extra = None\<rparr>),
      allocated = {7}, finalizer = {0}\<rparr>"

section \<open>Classification of result codes\<close>

lemma Itoa_example: "Itoa (- 7) = ''-7''"
  by (simp add: Itoa_def digits.simps)

text \<open>
  Claim C5. With the three result codes negative and pairwise different, \<open>matched\<close>
  answers success without an error for every non-negative code and for the partial-match
  code, failure without an error for the no-match code, failure with the error
  "invalid option flag" for the bad-option code, and failure with an error that carries
  the decimal code for every other negative code; and a \<open>Match\<close> that reaches
  the library records this classification and sets \<open>partial\<close> exactly when the code is
  the partial-match code.
\<close>

theorem matched_classification:
  assumes "error_codes_ok L"
  shows "(0 \<le> rc \<or> rc = PCRE_ERROR_PARTIAL L \<longrightarrow> matched L rc = (True, None)) \<and>
         (rc = PCRE_ERROR_NOMATCH L \<longrightarrow> matched L rc = (False, None)) \<and>
         (rc = PCRE_ERROR_BADOPTION L \<longrightarrow>
            matched L rc = (False, Some ''PCRE.Match: invalid option flag'')) \<and>
         (rc < 0 \<and> rc \<noteq> PCRE_ERROR_PARTIAL L \<and> rc \<noteq> PCRE_ERROR_NOMATCH L \<and>
          rc \<noteq> PCRE_ERROR_BADOPTION L \<longrightarrow>
            matched L rc = (False, Some (''unexpected return code from pcre_exec: '' @ Itoa rc))) \<and>
         (err m = None \<and> Exec L w m subject flags = Inr (rc, m1) \<longrightarrow>
            (\<exists>m2. Match L w m subject flags = Inr (fst (matched L rc), m2) \<and>
                  matches m2 = fst (matched L rc) \<and> err m2 = snd (matched L rc) \<and>
                  partial m2 = (rc = PCRE_ERROR_PARTIAL L)))"
proof -
  have a: "0 \<le> rc \<or> rc = PCRE_ERROR_PARTIAL L \<longrightarrow> matched L rc = (True, None)"
    by (simp add: matched_def)
  have b: "rc = PCRE_ERROR_NOMATCH L \<longrightarrow> matched L rc = (False, None)"
    using assms by (simp add: matched_def error_codes_ok_def)
  have c: "rc = PCRE_ERROR_BADOPTION L \<longrightarrow>
            matched L rc = (False, Some ''PCRE.Match: invalid option flag'')"
    using assms by (simp add: matched_def error_codes_ok_def)
  have d: "rc < 0 \<and> rc \<noteq> PCRE_ERROR_PARTIAL L \<and> rc \<noteq> PCRE_ERROR_NOMATCH L \<and>
          rc \<noteq> PCRE_ERROR_BADOPTION L \<longrightarrow>
            matched L rc = (False, Some (''unexpected return code from pcre_exec: '' @ Itoa rc))"
    by (simp add: matched_def)
  have e: "err m = None \<and> Exec L w m subject flags = Inr (rc, m1) \<longrightarrow>
            (\<exists>m2. Match L w m subject flags = Inr (fst (matched L rc), m2) \<and>
                  matches m2 = fst (matched L rc) \<and> err m2 = snd (matched L rc) \<and>
                  partial m2 = (rc = PCRE_ERROR_PARTIAL L))"
  proof (intro impI, elim conjE)
    assume e1: "err m = None" and e2: "Exec L w m subject flags = Inr (rc, m1)"
    from e2 have "\<not> uninitialized w m"
      by (auto simp: Exec_def split: if_splits)
    with e1 e2 have "Match L w m subject flags = Inr (record_rc L rc m1)"
      by (simp add: Match_def)
    then show "\<exists>m2. Match L w m subject flags = Inr (fst (matched L rc), m2) \<and>
                  matches m2 = fst (matched L rc) \<and> err m2 = snd (matched L rc) \<and>
                  partial m2 = (rc = PCRE_ERROR_PARTIAL L)"
      by (simp add: record_rc_def Let_def split: prod.splits)
  qed
  from a b c d e show ?thesis by blast
qed

theorem matched_classification_witness:
  "error_codes_ok (example_lib 0 (fixed_run (- 12) [0, 2])) \<and>
   matched (example_lib 0 (fixed_run (- 12) [0, 2])) 5 = (True, None) \<and>
   matched (example_lib 0 (fixed_run (- 12) [0, 2])) (- 12) = (True, None) \<and>
   matched (example_lib 0 (fixed_run (- 12) [0, 2])) (- 1) = (False, None) \<and>
   matched (example_lib 0 (fixed_run (- 12) [0, 2])) (- 3) =
     (False, Some ''PCRE.Match: invalid option flag'') \<and>
   matched (example_lib 0 (fixed_run (- 12) [0, 2])) (- 7) =
     (False, Some ''unexpected return code from pcre_exec: -7'') \<and>
   Match (example_lib 0 (fixed_run (- 12) [0, 2])) example_world
     (new_Matcher\<lparr>re := Some 0, ovector := [0, 0, 0]\<rparr>) (Some ''ab'') 0 =
     Inr (True, new_Matcher\<lparr>re := Some 0, ovector := [0, 2, 0], matches := True,
                partial := True, subjectb := Some ''ab''\<rparr>)"
proof -
  let ?L = "example_lib 0 (fixed_run (- 12) [0, 2])"
  let ?m = "new_Matcher\<lparr>re := Some 0, ovector := [0, 0, 0]\<rparr>"
  have ok: "error_codes_ok ?L"
    by (simp add: error_codes_ok_def example_lib_def)
  have ex: "Exec ?L example_world ?m (Some ''ab'') 0 =
              Inr (- 12, ?m\<lparr>ovector := [0, 2, 0], subjectb := Some ''ab''\<rparr>)"
    by (simp add: Exec_def exec_def uninitialized_def example_world_def example_lib_def
        fixed_run_def new_Matcher_def len_b_def overwrite_def C_int_def)
  have e0: "err ?m = None" by (simp add: new_Matcher_def)
  have codes: "PCRE_ERROR_PARTIAL ?L = - 12" "PCRE_ERROR_NOMATCH ?L = - 1"
    "PCRE_ERROR_BADOPTION ?L = - 3"
    by (simp_all add: example_lib_def)
  note t = matched_classification [OF ok]
  have m5: "matched ?L 5 = (True, None)" using t [of 5] by simp
  have m12: "matched ?L (- 12) = (True, None)" using t [of "- 12"] codes by simp
  have m1: "matched ?L (- 1) = (False, None)" using t [of "- 1"] codes by simp
  have m3: "matched ?L (- 3) = (False, Some ''PCRE.Match: invalid option flag'')"
    using t [of "- 3"] codes by simp
  have m7: "matched ?L (- 7) = (False, Some ''unexpected return code from pcre_exec: -7'')"
    using t [of "- 7"] codes by (simp add: Itoa_example)
  have mm: "Match ?L example_world ?m (Some ''ab'') 0 =
     Inr (True, new_Matcher\<lparr>re := Some 0, ovector := [0, 2, 0], matches := True,
                partial := True, subjectb := Some ''ab''\<rparr>)"
    using t [of "- 12" ?m example_world "Some ''ab''" 0] e0 ex m12 codes
    by (simp add: Match_def uninitialized_def example_world_def record_rc_def new_Matcher_def)
  from ok m5 m12 m1 m3 m7 mm show ?thesis by blast
qed

section \<open>Init\<close>

lemma same_handleD:
  "same_handle w m a \<Longrightarrow>
     \<exists>b h. re m = Some b \<and> ptr (regexps w b) = Some h \<and> ptr (regexps w a) = Some h"
  unfolding same_handle_def by (cases "re m") fastforce+

lemma same_handle_initialized: "same_handle w m a \<Longrightarrow> \<not> uninitialized w m"
  unfolding same_handle_def uninitialized_def by (cases "re m") fastforce+

lemma Init_fast: 
  "ptr (regexps w a) \<noteq> None \<Longrightarrow> same_handle w m a \<Longrightarrow>
     Init L w m a = Inr (m\<lparr>matches := False, err := None\<rparr>)"
  by (auto simp: Init_def same_handle_def Let_def split: option.splits)

lemma Init_slow:
  "ptr (regexps w a) = Some h \<Longrightarrow> \<not> same_handle w m a \<Longrightarrow>
     Init L w m a =
       Inr (m\<lparr>matches := False, err := None, re := Some a, groups := pcreGroups L h,
              ovector := (if int (length (ovector m)) < 3 * (1 + pcreGroups L h)
                          then replicate (nat (3 * (1 + pcreGroups L h))) 0
                          else ovector m)\<rparr>)"
  by (auto simp: Init_def same_handle_def Let_def Regexp_Groups_def split: option.splits)

lemma Init_panics:
  "ptr (regexps w a) = None \<Longrightarrow> Init L w m a = Inl (Uninitialized ''Matcher.Init: uninitialized'')"
  by (simp add: Init_def)

lemma Init_returns:
  assumes "ptr (regexps w a) \<noteq> None"
  shows "\<exists>m'. Init L w m a = Inr m' \<and> matches m' = False \<and> err m' = None \<and>
              partial m' = partial m \<and> \<not> uninitialized w m' \<and>
              (same_handle w m a \<longrightarrow> m' = m\<lparr>matches := False, err := None\<rparr>)"
proof (cases "same_handle w m a")
  case True
  then have "\<not> uninitialized w m" by (rule same_handle_initialized)
  then have "\<not> uninitialized w (m\<lparr>matches := False, err := None\<rparr>)"
    by (simp add: uninitialized_def)
  with True assms show ?thesis by (simp add: Init_fast)
next
  case False
  from assms obtain h where "ptr (regexps w a) = Some h" by auto
  with False show ?thesis by (simp add: Init_slow uninitialized_def)
qed

text \<open>
  Claim C3, as stated, fails: \<open>Init\<close> assigns \<open>matches\<close> and \<open>err\<close> and never
  \<open>partial\<close>. After a partial match of the pattern at address 0, \<open>Init\<close> with the
  same pattern (the fast path) and \<open>Init\<close> with another compiled pattern (the slow
  path) both leave \<open>partial\<close> set.
\<close>

theorem Init_partial_counterexample:
  "Regexp_Matcher (example_lib 0 (fixed_run (- 12) [0, 2])) example_world 0 (Some ''ab'') 0 =
     Inr (new_Matcher\<lparr>re := Some 0, ovector := [0, 2, 0], matches := True,
                     partial := True, subjectb := Some ''ab''\<rparr>) \<and>
   Init (example_lib 0 (fixed_run (- 12) [0, 2])) example_world
     (new_Matcher\<lparr>re := Some 0, ovector := [0, 2, 0], matches := True,
                  partial := True, subjectb := Some ''ab''\<rparr>) 0 =
     Inr (new_Matcher\<lparr>re := Some 0, ovector := [0, 2, 0], matches := False,
                     partial := True, subjectb := Some ''ab''\<rparr>) \<and>
   Init (example_lib 0 (fixed_run (- 12) [0, 2]))
     (example_world\<lparr>regexps := (regexps example_world)(1 := \<lparr>ptr = Some 8, extra = None\<rparr>)\<rparr>)
     (new_Matcher\<lparr>re := Some 0, ovector := [0, 2, 0], matches := True,
                  partial := True, subjectb := Some ''ab''\<rparr>) 1 =
     Inr (new_Matcher\<lparr>re := Some 1, ovector := [0, 2, 0], matches := False,
                     partial := True, subjectb := Some ''ab''\<rparr>)"
  by (simp add: Regexp_Matcher_def NewMatcher_def Init_def Regexp_Groups_def pcreGroups_def
      Match_def Exec_def exec_def uninitialized_def example_world_def example_lib_def
      fixed_run_def new_Matcher_def len_b_def overwrite_def C_int_def record_rc_def
      matched_def)

text \<open>
  Claim C3, amended. For every matcher and every compiled \<open>Regexp\<close>, \<open>Init\<close> returns
  with the success flag cleared and no recorded error, and leaves the partial flag as it
  was; on the fast path, taken when the matcher is already bound to the same compiled
  handle, nothing else changes.
\<close>

theorem Init_resets:
  assumes "ptr (regexps w a) \<noteq> None"
  shows "\<exists>m'. Init L w m a = Inr m' \<and> matches m' = False \<and> err m' = None \<and>
              partial m' = partial m \<and>
              (same_handle w m a \<longrightarrow> m' = m\<lparr>matches := False, err := None\<rparr>)"
  using Init_returns [OF assms, of L m] by blast

theorem Init_resets_witness:
  "ptr (regexps example_world 0) \<noteq> None \<and>
   same_handle example_world
     (new_Matcher\<lparr>re := Some 0, ovector := [0, 2, 0], matches := True, partial := True,
                  err := Some ''x''\<rparr>) 0 \<and>
   Init (example_lib 0 (fixed_run 1 [0, 2])) example_world
     (new_Matcher\<lparr>re := Some 0, ovector := [0, 2, 0], matches := True, partial := True,
                  err := Some ''x''\<rparr>) 0 =
     Inr (new_Matcher\<lparr>re := Some 0, ovector := [0, 2, 0], partial := True\<rparr>)"
proof -
  let ?m = "new_Matcher\<lparr>re := Some 0, ovector := [0, 2, 0], matches := True, partial := True,
                  err := Some ''x''\<rparr>"
  have p: "ptr (regexps example_world 0) \<noteq> None"
    by (simp add: example_world_def)
  have s: "same_handle example_world ?m 0"
    by (simp add: same_handle_def example_world_def new_Matcher_def)
  from Init_resets [OF p, of "example_lib 0 (fixed_run 1 [0, 2])" ?m] s
  have "Init (example_lib 0 (fixed_run 1 [0, 2])) example_world ?m 0 =
          Inr (?m\<lparr>matches := False, err := None\<rparr>)"
    by auto
  with p s show ?thesis by (simp add: new_Matcher_def)
qed

section \<open>Sticky error\<close>

text \<open>
  Claim C4. On a matcher with a recorded error, \<open>Match\<close> and \<open>MatchString\<close> return
  false and the matcher as it was, whatever the library is: \<open>pcre_exec\<close> has no part
  in the result, and neither the offset vector nor the subject changes. \<open>Init\<close> with a
  compiled pattern clears the error, after which \<open>Match\<close> goes through \<open>Exec\<close> again.
\<close>

theorem sticky_error:
  assumes "err m \<noteq> None"
  shows "Match L w m subject flags = Inr (False, m) \<and>
         MatchString L w m s flags = Inr (False, m) \<and>
         (ptr (regexps w a) \<noteq> None \<longrightarrow>
            (\<exists>m'. Init L w m a = Inr m' \<and> err m' = None \<and>
                  Match L w m' subject flags =
                    (case Exec L w m' subject flags of
                       Inl e \<Rightarrow> Inl e | Inr (rc, m1) \<Rightarrow> Inr (record_rc L rc m1))))"
proof -
  have a: "Match L w m subject flags = Inr (False, m)"
    using assms by (simp add: Match_def)
  have b: "MatchString L w m s flags = Inr (False, m)"
    using assms by (simp add: MatchString_def)
  have c: "ptr (regexps w a) \<noteq> None \<longrightarrow>
            (\<exists>m'. Init L w m a = Inr m' \<and> err m' = None \<and>
                  Match L w m' subject flags =
                    (case Exec L w m' subject flags of
                       Inl e \<Rightarrow> Inl e | Inr (rc, m1) \<Rightarrow> Inr (record_rc L rc m1)))"
  proof
    assume p: "ptr (regexps w a) \<noteq> None"
    from Init_returns [OF p, of L m]
    obtain m' where i: "Init L w m a = Inr m'" and e: "err m' = None"
      and u: "\<not> uninitialized w m'" by blast
    from e u have "Match L w m' subject flags =
                    (case Exec L w m' subject flags of
                       Inl e \<Rightarrow> Inl e | Inr (rc, m1) \<Rightarrow> Inr (record_rc L rc m1))"
      by (simp add: Match_def)
    with i e show "\<exists>m'. Init L w m a = Inr m' \<and> err m' = None \<and>
                  Match L w m' subject flags =
                    (case Exec L w m' subject flags of
                       Inl e \<Rightarrow> Inl e | Inr (rc, m1) \<Rightarrow> Inr (record_rc L rc m1))"
      by blast
  qed
  from a b c show ?thesis by blast
qed


theorem sticky_error_witness:
  "err (new_Matcher\<lparr>re := Some 0, ovector := [0, 0, 0],
                     err := Some ''PCRE.Match: invalid option flag''\<rparr>) \<noteq> None \<and>
   ptr (regexps example_world 0) \<noteq> None \<and>
   Match (example_lib 0 (fixed_run 1 [0, 2])) example_world
     (new_Matcher\<lparr>re := Some 0, ovector := [0, 0, 0],
                  err := Some ''PCRE.Match: invalid option flag''\<rparr>) (Some ''ab'') 0 =
     Inr (False, new_Matcher\<lparr>re := Some 0, ovector := [0, 0, 0],
                  err := Some ''PCRE.Match: invalid option flag''\<rparr>) \<and>
   MatchString (example_lib 0 (fixed_run 1 [0, 2])) example_world
     (new_Matcher\<lparr>re := Some 0, ovector := [0, 0, 0],
                  err := Some ''PCRE.Match: invalid option flag''\<rparr>) ''ab'' 0 =
     Inr (False, new_Matcher\<lparr>re := Some 0, ovector := [0, 0, 0],
                  err := Some ''PCRE.Match: invalid option flag''\<rparr>) \<and>
   Init (example_lib 0 (fixed_run 1 [0, 2])) example_world
     (new_Matcher\<lparr>re := Some 0, ovector := [0, 0, 0],
                  err := Some ''PCRE.Match: invalid option flag''\<rparr>) 0 =
     Inr (new_Matcher\<lparr>re := Some 0, ovector := [0, 0, 0]\<rparr>)"
proof -
  let ?m = "new_Matcher\<lparr>re := Some 0, ovector := [0, 0, 0],
                        err := Some ''PCRE.Match: invalid option flag''\<rparr>"
  let ?L = "example_lib 0 (fixed_run 1 [0, 2])"
  have e: "err ?m \<noteq> None" by (simp add: new_Matcher_def)
  have p: "ptr (regexps example_world 0) \<noteq> None" by (simp add: example_world_def)
  have i: "Init ?L example_world ?m 0 = Inr (new_Matcher\<lparr>re := Some 0, ovector := [0, 0, 0]\<rparr>)"
    by (simp add: Init_def example_world_def new_Matcher_def)
  from sticky_error [OF e, of ?L example_world "Some ''ab''" 0 "''ab''" 0] e p i
  show ?thesis by simp
qed

section \<open>Study\<close>

text \<open>
  Claim C8. \<open>Study\<close> on a \<open>Regexp\<close> that already has study data returns the
  already-optimized error and changes nothing; otherwise it returns the library's error
  message when there is one; when the library gives neither study data nor a message it
  returns no error and the pattern stays as it was, without study data; and after a
  \<open>Study\<close> that stored study data, a second \<open>Study\<close> returns the already-optimized
  error and keeps that data.
\<close>

theorem Study_outcomes:
  "(extra (regexps w a) \<noteq> None \<longrightarrow>
      Study L w a flags = (w, Some ''Study: Regexp has already been optimized'')) \<and>
   (extra (regexps w a) = None \<and>
    pcre_study L (ptr (regexps w a))
      (C_int (if flags = 0 then PCRE_STUDY_JIT_COMPILE L else flags)) = (x, Some msg) \<longrightarrow>
      snd (Study L w a flags) = Some msg) \<and>
   (extra (regexps w a) = None \<and>
    pcre_study L (ptr (regexps w a))
      (C_int (if flags = 0 then PCRE_STUDY_JIT_COMPILE L else flags)) = (None, None) \<longrightarrow>
      snd (Study L w a flags) = None \<and> extra (regexps (fst (Study L w a flags)) a) = None \<and>
      ptr (regexps (fst (Study L w a flags)) a) = ptr (regexps w a)) \<and>
   (extra (regexps w a) = None \<and>
    pcre_study L (ptr (regexps w a))
      (C_int (if flags = 0 then PCRE_STUDY_JIT_COMPILE L else flags)) = (Some y, None) \<longrightarrow>
      snd (Study L w a flags) = None \<and>
      extra (regexps (fst (Study L w a flags)) a) = Some y \<and>
      Study L (fst (Study L w a flags)) a flags2 =
        (fst (Study L w a flags), Some ''Study: Regexp has already been optimized''))"
  by (simp add: Study_def set_extra_def Let_def)

theorem Study_outcomes_witness:
  "Study ((example_lib 0 (fixed_run 1 [0, 1]))\<lparr>pcre_study := (\<lambda>p f. (Some 9, None))\<rparr>)
     example_world 0 0 =
     (example_world\<lparr>regexps := (regexps example_world)(0 := \<lparr>ptr = Some 7, extra = Some 9\<rparr>),
                     allocated := {7, 9}\<rparr>, None) \<and>
   Study ((example_lib 0 (fixed_run 1 [0, 1]))\<lparr>pcre_study := (\<lambda>p f. (Some 9, None))\<rparr>)
     (example_world\<lparr>regexps := (regexps example_world)(0 := \<lparr>ptr = Some 7, extra = Some 9\<rparr>),
                     allocated := {7, 9}\<rparr>) 0 0 =
     (example_world\<lparr>regexps := (regexps example_world)(0 := \<lparr>ptr = Some 7, extra = Some 9\<rparr>),
                     allocated := {7, 9}\<rparr>,
      Some ''Study: Regexp has already been optimized'') \<and>
   snd (Study ((example_lib 0 (fixed_run 1 [0, 1]))\<lparr>pcre_study := (\<lambda>p f. (None, Some ''no JIT''))\<rparr>)
          example_world 0 0) = Some ''no JIT'' \<and>
   snd (Study (example_lib 0 (fixed_run 1 [0, 1])) example_world 0 0) = None \<and>
   extra (regexps (fst (Study (example_lib 0 (fixed_run 1 [0, 1])) example_world 0 0)) 0) = None"
proof -
  let ?L = "example_lib 0 (fixed_run 1 [0, 1])"
  let ?L1 = "?L\<lparr>pcre_study := (\<lambda>p f. (Some 9, None))\<rparr>"
  let ?L2 = "?L\<lparr>pcre_study := (\<lambda>p f. (None, Some ''no JIT''))\<rparr>"
  let ?w1 = "example_world\<lparr>regexps := (regexps example_world)(0 := \<lparr>ptr = Some 7, extra = Some 9\<rparr>),
                     allocated := {7, 9}\<rparr>"
  have e0: "extra (regexps example_world 0) = None" by (simp add: example_world_def)
  have s1: "Study ?L1 example_world 0 0 = (?w1, None)"
    by (simp add: Study_def set_extra_def example_world_def example_lib_def Let_def insert_commute)
  have e1: "extra (regexps ?w1 0) \<noteq> None" by simp
  have a: "Study ?L1 ?w1 0 0 = (?w1, Some ''Study: Regexp has already been optimized'')"
    using Study_outcomes [of ?w1 0 ?L1 0] e1 by blast
  have b: "snd (Study ?L2 example_world 0 0) = Some ''no JIT''"
    using Study_outcomes [of example_world 0 ?L2 0 None "''no JIT''"] e0 by simp
  have c: "snd (Study ?L example_world 0 0) = None \<and>
           extra (regexps (fst (Study ?L example_world 0 0)) 0) = None"
    using Study_outcomes [of example_world 0 ?L 0] e0 by (simp add: example_lib_def)
  from s1 a b c show ?thesis by blast
qed

section \<open>Group and GroupString\<close>

text \<open>
  Claim C10. Where both slots of a group can be read, \<open>GroupString\<close> returns the
  empty string when slot \<open>2i\<close> is negative (the group is absent) and also when the
  group matched the empty string inside the subject, while \<open>Group\<close> returns the nil
  slice in the first case and an empty slice that is not nil in the second; \<open>Group\<close>
  returns nil exactly when slot \<open>2i\<close> is negative.
\<close>

theorem GroupString_absent_or_empty:
  assumes "index (ovector m) (2 * g) = Inr start"
      and "index (ovector m) (2 * g + 1) = Inr end1"
  shows "(start < 0 \<longrightarrow> GroupString m g = Inr [] \<and> Group m g = Inr None) \<and>
         (0 \<le> start \<and> start = end1 \<and> end1 \<le> int (length (subject_of m)) \<longrightarrow>
            GroupString m g = Inr [] \<and> Group m g = Inr (Some [])) \<and>
         (Group m g = Inr None \<longleftrightarrow> start < 0)"
proof -
  have a: "start < 0 \<longrightarrow> GroupString m g = Inr [] \<and> Group m g = Inr None"
    using assms by (simp add: GroupString_def Group_def)
  have b: "0 \<le> start \<and> start = end1 \<and> end1 \<le> int (length (subject_of m)) \<longrightarrow>
            GroupString m g = Inr [] \<and> Group m g = Inr (Some [])"
    using assms
    by (cases "subjectb m")
       (simp_all add: GroupString_def Group_def subject_of_def slice_b_def slice_def)
  have c: "Group m g = Inr None \<longleftrightarrow> start < 0"
    using assms
    by (cases "subjectb m")
       (auto simp: Group_def slice_b_def split: sum.splits)
  from a b c show ?thesis by blast
qed


theorem GroupString_absent_or_empty_witness:
  "index (ovector (new_Matcher\<lparr>re := Some 0, groups := 2,
            ovector := [0, 1, - 1, - 1, 0, 0, 0, 0, 0], matches := True, subjects := ''c''\<rparr>))
     (2 * 1) = Inr (- 1) \<and>
   GroupString (new_Matcher\<lparr>re := Some 0, groups := 2,
            ovector := [0, 1, - 1, - 1, 0, 0, 0, 0, 0], matches := True, subjects := ''c''\<rparr>) 1
     = Inr [] \<and>
   Group (new_Matcher\<lparr>re := Some 0, groups := 2,
            ovector := [0, 1, - 1, - 1, 0, 0, 0, 0, 0], matches := True, subjects := ''c''\<rparr>) 1
     = Inr None \<and>
   GroupString (new_Matcher\<lparr>re := Some 0, groups := 2,
            ovector := [0, 1, - 1, - 1, 0, 0, 0, 0, 0], matches := True, subjects := ''c''\<rparr>) 2
     = Inr [] \<and>
   Group (new_Matcher\<lparr>re := Some 0, groups := 2,
            ovector := [0, 1, - 1, - 1, 0, 0, 0, 0, 0], matches := True, subjects := ''c''\<rparr>) 2
     = Inr (Some [])"
proof -
  let ?m = "new_Matcher\<lparr>re := Some 0, groups := 2,
            ovector := [0, 1, - 1, - 1, 0, 0, 0, 0, 0], matches := True, subjects := ''c''\<rparr>"
  have i2: "index (ovector ?m) (2 * 1) = Inr (- 1)" by (simp add: index_def)
  have i3: "index (ovector ?m) (2 * 1 + 1) = Inr (- 1)" by (simp add: index_def)
  have i4: "index (ovector ?m) (2 * 2) = Inr 0" by (simp add: index_def)
  have i5: "index (ovector ?m) (2 * 2 + 1) = Inr 0" by (simp add: index_def)
  have a: "GroupString ?m 1 = Inr [] \<and> Group ?m 1 = Inr None"
    using GroupString_absent_or_empty [OF i2 i3] by simp
  have b: "GroupString ?m 2 = Inr [] \<and> Group ?m 2 = Inr (Some [])"
    using GroupString_absent_or_empty [OF i4 i5] by simp
  from i2 a b show ?thesis by blast
qed

section \<open>FreeRegexp\<close>

lemma FreeRegexp_released:
  "ptr (regexps w a) = None \<Longrightarrow> extra (regexps w a) = None \<Longrightarrow>
     FreeRegexp w a = Inr (w\<lparr>finalizer := finalizer w - {a}\<rparr>)"
  by (simp add: FreeRegexp_def)

text \<open>
  Claim C9. On a \<open>Regexp\<close> that owns its handles, \<open>FreeRegexp\<close> returns without a
  fault, frees the compiled pattern and the study data that are present, leaves both
  fields nil and the object without a finalizer; a second call returns the same state
  without a fault, and so does a call on a \<open>Regexp\<close> that was never compiled.
\<close>

theorem FreeRegexp_idempotent:
  assumes "owns w a"
  shows "\<exists>w'. FreeRegexp w a = Inr w' \<and>
              ptr (regexps w' a) = None \<and> extra (regexps w' a) = None \<and>
              a \<notin> finalizer w' \<and>
              allocated w' = allocated w - (set_option (ptr (regexps w a)) \<union>
                                           set_option (extra (regexps w a))) \<and>
              FreeRegexp w' a = Inr w' \<and>
              (ptr (regexps w a) = None \<and> extra (regexps w a) = None \<and> a \<notin> finalizer w
                 \<longrightarrow> w' = w)"
proof -
  obtain w' where f: "FreeRegexp w a = Inr w'"
    and p: "ptr (regexps w' a) = None" and x: "extra (regexps w' a) = None"
    and n: "a \<notin> finalizer w'"
    and al: "allocated w' = allocated w - (set_option (ptr (regexps w a)) \<union>
                                           set_option (extra (regexps w a)))"
    and same: "ptr (regexps w a) = None \<and> extra (regexps w a) = None \<and> a \<notin> finalizer w
                 \<longrightarrow> w' = w"
    using assms
    by (cases "ptr (regexps w a)"; cases "extra (regexps w a)")
       (auto simp: FreeRegexp_def owns_def c_free_def set_ptr_def set_extra_def)
  from p x have "FreeRegexp w' a = Inr (w'\<lparr>finalizer := finalizer w' - {a}\<rparr>)"
    by (rule FreeRegexp_released)
  with n have "FreeRegexp w' a = Inr w'" by simp
  with f p x n al same show ?thesis by blast
qed

theorem FreeRegexp_idempotent_witness:
  "owns (example_world\<lparr>regexps := (regexps example_world)(0 := \<lparr>ptr = Some 7, extra = Some 9\<rparr>),
                       allocated := {7, 9}\<rparr>) 0 \<and>
   FreeRegexp (example_world\<lparr>regexps := (regexps example_world)(0 := \<lparr>ptr = Some 7, extra = Some 9\<rparr>),
                       allocated := {7, 9}\<rparr>) 0 =
     Inr (example_world\<lparr>regexps := (regexps example_world)(0 := \<lparr>ptr = None, extra = None\<rparr>),
                       allocated := {}, finalizer := {}\<rparr>) \<and>
   FreeRegexp (example_world\<lparr>regexps := (regexps example_world)(0 := \<lparr>ptr = None, extra = None\<rparr>),
                       allocated := {}, finalizer := {}\<rparr>) 0 =
     Inr (example_world\<lparr>regexps := (regexps example_world)(0 := \<lparr>ptr = None, extra = None\<rparr>),
                       allocated := {}, finalizer := {}\<rparr>) \<and>
   owns example_world 1 \<and>
   FreeRegexp example_world 1 = Inr example_world"
proof -
  let ?w = "example_world\<lparr>regexps := (regexps example_world)(0 := \<lparr>ptr = Some 7, extra = Some 9\<rparr>),
                       allocated := {7, 9}\<rparr>"
  let ?w' = "example_world\<lparr>regexps := (regexps example_world)(0 := \<lparr>ptr = None, extra = None\<rparr>),
                       allocated := {}, finalizer := {}\<rparr>"
  have o: "owns ?w 0" by (simp add: owns_def)
  have f: "FreeRegexp ?w 0 = Inr ?w'"
    by (simp add: FreeRegexp_def c_free_def set_ptr_def set_extra_def example_world_def)
  from FreeRegexp_idempotent [OF o] f have g: "FreeRegexp ?w' 0 = Inr ?w'" by auto
  have o1: "owns example_world 1" by (simp add: owns_def example_world_def)
  have "ptr (regexps example_world 1) = None \<and> extra (regexps example_world 1) = None \<and>
        1 \<notin> finalizer example_world"
    by (simp add: example_world_def)
  with FreeRegexp_idempotent [OF o1] have h: "FreeRegexp example_world 1 = Inr example_world"
    by auto
  from o f g o1 h show ?thesis by blast
qed

section \<open>The offset vector\<close>

lemma length_overwrite: "length (overwrite old written) = length old"
  by (simp add: overwrite_def)

lemma bound_ok_new: "bound_ok L w new_Matcher"
  by (simp add: bound_ok_def new_Matcher_def)

lemma bound_ok_cong:
  "re m' = re m \<Longrightarrow> groups m' = groups m \<Longrightarrow> length (ovector m') = length (ovector m) \<Longrightarrow>
     bound_ok L w m' = bound_ok L w m"
  by (auto simp: bound_ok_def split: option.splits)

lemma Init_bound:
  assumes "bound_ok L w m" and "Init L w m a = Inr m'"
  shows "\<exists>b h. re m' = Some b \<and> ptr (regexps w b) = Some h \<and> ptr (regexps w a) = Some h \<and>
               groups m' = pcreGroups L h \<and>
               3 * (1 + groups m') \<le> int (length (ovector m')) \<and>
               length (ovector m) \<le> length (ovector m') \<and>
               (\<not> same_handle w m a \<longrightarrow>
                  re m' = Some a \<and>
                  ovector m' = (if int (length (ovector m)) < 3 * (1 + pcreGroups L h)
                                then replicate (nat (3 * (1 + pcreGroups L h))) 0
                                else ovector m))"
proof -
  from assms(2) obtain h where h: "ptr (regexps w a) = Some h"
    by (cases "ptr (regexps w a)") (simp_all add: Init_def)
  show ?thesis
  proof (cases "same_handle w m a")
    case True
    with h assms(2) have m': "m' = m\<lparr>matches := False, err := None\<rparr>"
      by (simp add: Init_fast)
    from True h obtain b where b: "re m = Some b" "ptr (regexps w b) = Some h"
      using same_handleD by fastforce
    with assms(1) have "groups m = pcreGroups L h \<and>
                        3 * (1 + groups m) \<le> int (length (ovector m))"
      by (simp add: bound_ok_def)
    with True m' b h show ?thesis by simp
  next
    case False
    with h assms(2) show ?thesis by (auto simp: Init_slow)
  qed
qed

lemma Init_preserves_bound_ok:
  "bound_ok L w m \<Longrightarrow> Init L w m a = Inr m' \<Longrightarrow> bound_ok L w m'"
  using Init_bound [of L w m a m'] by (auto simp: bound_ok_def)

lemma exec_frame:
  "exec L w m buf n flags = Inr (rc, m') \<Longrightarrow>
     re m' = re m \<and> groups m' = groups m \<and> length (ovector m') = length (ovector m)"
  by (auto simp: exec_def Let_def length_overwrite split: option.splits if_splits prod.splits)

lemma Exec_frame:
  "Exec L w m subject flags = Inr (rc, m') \<Longrightarrow>
     re m' = re m \<and> groups m' = groups m \<and> length (ovector m') = length (ovector m)"
  by (auto simp: Exec_def Let_def split: if_splits dest!: exec_frame)

lemma ExecString_frame:
  "ExecString L w m subject flags = Inr (rc, m') \<Longrightarrow>
     re m' = re m \<and> groups m' = groups m \<and> length (ovector m') = length (ovector m)"
  by (auto simp: ExecString_def Let_def split: if_splits dest!: exec_frame)

lemma record_rc_frame:
  "record_rc L rc m = (ok, m') \<Longrightarrow>
     re m' = re m \<and> groups m' = groups m \<and> ovector m' = ovector m \<and>
     subjects m' = subjects m \<and> subjectb m' = subjectb m \<and> ok = matches m'"
  by (auto simp: record_rc_def Let_def split: prod.splits)

lemma Match_frame:
  "Match L w m subject flags = Inr (ok, m') \<Longrightarrow>
     re m' = re m \<and> groups m' = groups m \<and> length (ovector m') = length (ovector m)"
  by (auto simp: Match_def split: if_splits sum.splits dest!: Exec_frame record_rc_frame)

lemma MatchString_frame:
  "MatchString L w m subject flags = Inr (ok, m') \<Longrightarrow>
     re m' = re m \<and> groups m' = groups m \<and> length (ovector m') = length (ovector m)"
  by (auto simp: MatchString_def split: if_splits sum.splits dest!: ExecString_frame record_rc_frame)

lemma Match_preserves_bound_ok:
  "bound_ok L w m \<Longrightarrow> Match L w m subject flags = Inr (ok, m') \<Longrightarrow> bound_ok L w m'"
  using Match_frame bound_ok_cong by blast

lemma MatchString_preserves_bound_ok:
  "bound_ok L w m \<Longrightarrow> MatchString L w m subject flags = Inr (ok, m') \<Longrightarrow> bound_ok L w m'"
  using MatchString_frame bound_ok_cong by blast

lemma FreeRegexp_ptr:
  "FreeRegexp w a = Inr w' \<Longrightarrow>
     ptr (regexps w' b) = (if b = a then None else ptr (regexps w b))"
  by (cases "ptr (regexps w a)"; cases "extra (regexps w a)")
     (auto simp: FreeRegexp_def c_free_def set_ptr_def set_extra_def split: if_splits)

lemma FreeRegexp_preserves_bound_ok:
  "bound_ok L w m \<Longrightarrow> FreeRegexp w a = Inr w' \<Longrightarrow> bound_ok L w' m"
  by (auto simp: bound_ok_def FreeRegexp_ptr split: option.splits)

lemma Study_ptr: "ptr (regexps (fst (Study L w a flags)) b) = ptr (regexps w b)"
  by (simp add: Study_def set_extra_def Let_def split: prod.splits option.splits)

lemma Study_preserves_bound_ok:
  "bound_ok L w m \<Longrightarrow> bound_ok L (fst (Study L w a flags)) m"
  by (auto simp: bound_ok_def Study_ptr split: option.splits)

lemma NewMatcher_bound_ok: "NewMatcher L w a = Inr m \<Longrightarrow> bound_ok L w m"
  unfolding NewMatcher_def using bound_ok_new Init_preserves_bound_ok by blast

text \<open>
  Claim C7. The invariant \<open>bound_ok\<close> holds of a new matcher and is kept by \<open>Init\<close>,
  \<open>Match\<close>, \<open>MatchString\<close>, \<open>FreeRegexp\<close> and \<open>Study\<close> (the lemmas above). From
  it, after every \<open>Init\<close> that returns, the matcher is bound to a pattern with the
  handle of the given one, its cached group count is that pattern's, and its offset
  vector has at least \<open>3 * (1 + groups)\<close> entries; the vector never gets shorter, and
  when the matcher was bound to another pattern the vector is replaced only if it was
  too short.
\<close>

theorem Init_ovector_room:
  assumes "bound_ok L w m" and "Init L w m a = Inr m'"
  shows "\<exists>b h. re m' = Some b \<and> ptr (regexps w b) = Some h \<and> ptr (regexps w a) = Some h \<and>
               groups m' = pcreGroups L h \<and>
               3 * (1 + groups m') \<le> int (length (ovector m')) \<and>
               length (ovector m) \<le> length (ovector m') \<and>
               (\<not> same_handle w m a \<longrightarrow>
                  re m' = Some a \<and>
                  ovector m' = (if int (length (ovector m)) < 3 * (1 + pcreGroups L h)
                                then replicate (nat (3 * (1 + pcreGroups L h))) 0
                                else ovector m))"
  using assms by (rule Init_bound)


theorem Init_ovector_room_witness:
  "bound_ok ((example_lib 0 (fixed_run 1 [0, 1]))
               \<lparr>pcre_fullinfo_capturecount := (\<lambda>h. if h = 7 then 2 else 0)\<rparr>)
     (example_world\<lparr>regexps := (regexps example_world)(1 := \<lparr>ptr = Some 8, extra = None\<rparr>)\<rparr>)
     (new_Matcher\<lparr>re := Some 0, groups := 2, ovector := [0, 0, 0, 0, 0, 0, 0, 0, 0]\<rparr>) \<and>
   Init ((example_lib 0 (fixed_run 1 [0, 1]))
               \<lparr>pcre_fullinfo_capturecount := (\<lambda>h. if h = 7 then 2 else 0)\<rparr>)
     (example_world\<lparr>regexps := (regexps example_world)(1 := \<lparr>ptr = Some 8, extra = None\<rparr>)\<rparr>)
     (new_Matcher\<lparr>re := Some 0, groups := 2, ovector := [0, 0, 0, 0, 0, 0, 0, 0, 0]\<rparr>) 1 =
     Inr (new_Matcher\<lparr>re := Some 1, groups := 0, ovector := [0, 0, 0, 0, 0, 0, 0, 0, 0]\<rparr>) \<and>
   3 * (1 + groups (new_Matcher\<lparr>re := Some 1, groups := 0,
                                  ovector := [0, 0, 0, 0, 0, 0, 0, 0, 0]\<rparr>))
     \<le> int (length (ovector (new_Matcher\<lparr>re := Some 1, groups := 0,
                                  ovector := [0, 0, 0, 0, 0, 0, 0, 0, 0]\<rparr>)))"
proof -
  let ?L = "(example_lib 0 (fixed_run 1 [0, 1]))
               \<lparr>pcre_fullinfo_capturecount := (\<lambda>h. if h = 7 then 2 else 0)\<rparr>"
  let ?w = "example_world\<lparr>regexps := (regexps example_world)(1 := \<lparr>ptr = Some 8, extra = None\<rparr>)\<rparr>"
  let ?m = "new_Matcher\<lparr>re := Some 0, groups := 2, ovector := [0, 0, 0, 0, 0, 0, 0, 0, 0]\<rparr>"
  let ?m' = "new_Matcher\<lparr>re := Some 1, groups := 0, ovector := [0, 0, 0, 0, 0, 0, 0, 0, 0]\<rparr>"
  have b: "bound_ok ?L ?w ?m"
    by (simp add: bound_ok_def example_world_def example_lib_def pcreGroups_def new_Matcher_def)
  have i: "Init ?L ?w ?m 1 = Inr ?m'"
    by (simp add: Init_def Regexp_Groups_def pcreGroups_def example_world_def example_lib_def
        new_Matcher_def)
  from Init_ovector_room [OF b i]
  have "3 * (1 + groups ?m') \<le> int (length (ovector ?m'))" by blast
  with b i show ?thesis by blast
qed

lemma Init_new_Matcher_example:
  "Init ((example_lib 0 (fixed_run 1 [0, 1]))
               \<lparr>pcre_fullinfo_capturecount := (\<lambda>h. if h = 7 then 2 else 0)\<rparr>)
     example_world new_Matcher 0 =
     Inr (new_Matcher\<lparr>re := Some 0, groups := 2, ovector := [0, 0, 0, 0, 0, 0, 0, 0, 0]\<rparr>)"
  by (simp add: Init_def Regexp_Groups_def pcreGroups_def example_world_def example_lib_def
      new_Matcher_def numeral_eq_Suc)

section \<open>FindAll\<close>

lemma maxInt_max: "maxInt a b = max a b"
  by (simp add: maxInt_def max_def)

lemma slice_to_end:
  "0 \<le> lo \<Longrightarrow> lo \<le> int (length xs) \<Longrightarrow> slice xs lo (int (length xs)) = Inr (drop (nat lo) xs)"
  by (simp add: slice_def)

lemma FindAll_loop_stop:
  "\<not> matches m \<Longrightarrow> FindAll_loop L w subject flags m offset acc = Inr (acc, err m)"
  by (subst FindAll_loop.simps) simp

lemma FindAll_loop_step:
  assumes "matches m" and "index (ovector m) 0 = Inr o0" and "index (ovector m) 1 = Inr o1"
    and "slice subject (o0 + offset) (o1 + offset) = Inr f" and "0 \<le> offset"
  shows "FindAll_loop L w subject flags m offset acc =
           (if offset + max 1 o1 < int (length subject)
            then (case MatchString L w m (drop (nat (offset + max 1 o1)) subject) flags of
                    Inl e \<Rightarrow> Inl e
                  | Inr (ok, m1) \<Rightarrow>
                      FindAll_loop L w subject flags m1 (offset + max 1 o1)
                        (acc @ [\<lparr>Finding = f, Loc = [o0 + offset, o1 + offset]\<rparr>]))
            else Inr (acc @ [\<lparr>Finding = f, Loc = [o0 + offset, o1 + offset]\<rparr>], err m))"
proof (cases "offset + max 1 o1 < int (length subject)")
  case True
  with assms(5) have "slice subject (offset + max 1 o1) (int (length subject)) =
                        Inr (drop (nat (offset + max 1 o1)) subject)"
    by (intro slice_to_end) auto
  with True assms show ?thesis
    by (subst FindAll_loop.simps) (simp add: Let_def maxInt_max)
next
  case False
  with assms show ?thesis
    by (subst FindAll_loop.simps) (simp add: Let_def maxInt_max)
qed

lemma FindAll_loop_panic:
  assumes "matches m"
    and "index (ovector m) 0 = Inl e \<or>
         (\<exists>o0. index (ovector m) 0 = Inr o0 \<and>
            (index (ovector m) 1 = Inl e \<or>
             (\<exists>o1. index (ovector m) 1 = Inr o1 \<and> slice subject (o0 + offset) (o1 + offset) = Inl e)))"
  shows "FindAll_loop L w subject flags m offset acc = Inl e"
  using assms by (subst FindAll_loop.simps) (auto simp: Let_def)

lemma FindAll_loop_bound:
  "0 \<le> offset \<Longrightarrow> FindAll_loop L w subject flags m offset acc = Inr (res, e) \<Longrightarrow>
     \<exists>new. res = acc @ new \<and> length new \<le> max 1 (nat (int (length subject) - offset)) \<and>
           (\<forall>x\<in>set new. \<exists>l r. Loc x = [l, r] \<and> slice subject l r = Inr (Finding x))"
proof (induction "nat (int (length subject) - offset)" arbitrary: m offset acc rule: less_induct)
  case less
  show ?case
  proof (cases "matches m")
    case False
    with less.prems show ?thesis by (simp add: FindAll_loop_stop)
  next
    case True
    from True less.prems(2) obtain o0 where o0: "index (ovector m) 0 = Inr o0"
      by (cases "index (ovector m) 0") (simp_all add: FindAll_loop_panic)
    from True less.prems(2) o0 obtain o1 where o1: "index (ovector m) 1 = Inr o1"
      by (cases "index (ovector m) 1") (simp_all add: FindAll_loop_panic)
    from True less.prems(2) o0 o1 obtain f where
      f: "slice subject (o0 + offset) (o1 + offset) = Inr f"
      by (cases "slice subject (o0 + offset) (o1 + offset)") (simp_all add: FindAll_loop_panic)
    let ?x = "\<lparr>Finding = f, Loc = [o0 + offset, o1 + offset]\<rparr>"
    let ?off = "offset + max 1 o1"
    note step = FindAll_loop_step [OF True o0 o1 f less.prems(1), of L w flags acc]
    show ?thesis
    proof (cases "?off < int (length subject)")
      case False
      with step less.prems(2) have "res = acc @ [?x]" by simp
      with f show ?thesis by simp
    next
      case lt: True
      with step less.prems(2) obtain ok m1 where
        m1: "MatchString L w m (drop (nat ?off) subject) flags = Inr (ok, m1)"
        and r: "FindAll_loop L w subject flags m1 ?off (acc @ [?x]) = Inr (res, e)"
        by (cases "MatchString L w m (drop (nat ?off) subject) flags") (auto split: prod.splits)
      from lt less.prems(1)
      have d: "nat (int (length subject) - ?off) < nat (int (length subject) - offset)"
        and d1: "1 \<le> nat (int (length subject) - ?off)" and p: "0 \<le> ?off"
        by auto
      from less.hyps [OF d p r] obtain new where
        n: "res = (acc @ [?x]) @ new"
        and ln: "length new \<le> max 1 (nat (int (length subject) - ?off))"
        and el: "\<forall>x\<in>set new. \<exists>l r. Loc x = [l, r] \<and> slice subject l r = Inr (Finding x)"
        by blast
      from n have "res = acc @ (?x # new)" by simp
      moreover from ln d d1 have "length (?x # new) \<le> max 1 (nat (int (length subject) - offset))"
        by simp
      moreover from el f
      have "\<forall>x\<in>set (?x # new). \<exists>l r. Loc x = [l, r] \<and> slice subject l r = Inr (Finding x)"
        by simp
      ultimately show ?thesis by blast
    qed
  qed
qed

lemma FindAll_example:
  "FindAll (example_lib 0 (star_run CHR ''a'')) example_world 0 ''baaab'' 0 =
     Inr ([\<lparr>Finding = [], Loc = [0, 0]\<rparr>, \<lparr>Finding = ''aaa'', Loc = [1, 4]\<rparr>,
           \<lparr>Finding = [], Loc = [4, 4]\<rparr>], None)"
  by code_simp


lemma MatcherString_unfold:
  "MatcherString L w a subject flags =
     (case Init L w new_Matcher a of
        Inl e \<Rightarrow> Inl e
      | Inr m \<Rightarrow> (case MatchString L w m subject flags of
                    Inl e \<Rightarrow> Inl e
                  | Inr (ok, m1) \<Rightarrow> Inr m1))"
  by (simp add: MatcherString_def NewMatcher_def)

lemma FindAll_unfold:
  "FindAll L w a subject flags =
     (case MatcherString L w a subject flags of
        Inl e \<Rightarrow> Inl e
      | Inr m0 \<Rightarrow> FindAll_loop L w subject flags m0 0 [])"
  by (simp add: FindAll_def)

lemma FindAll_loop_first:
  assumes "matches m" and "index (ovector m) 0 = Inr p0" and "index (ovector m) 1 = Inr p1"
    and "slice subject p0 p1 = Inr g"
  shows "FindAll_loop L w subject flags m 0 [] =
           (if max 1 p1 < int (length subject)
            then (case MatchString L w m (drop (nat (max 1 p1)) subject) flags of
                    Inl e \<Rightarrow> Inl e
                  | Inr (ok, m1) \<Rightarrow>
                      FindAll_loop L w subject flags m1 (max 1 p1)
                        [\<lparr>Finding = g, Loc = [p0, p1]\<rparr>])
            else Inr ([\<lparr>Finding = g, Loc = [p0, p1]\<rparr>], err m))"
proof (cases "max 1 p1 < int (length subject)")
  case True
  then have "slice subject (max 1 p1) (int (length subject)) = Inr (drop (nat (max 1 p1)) subject)"
    by (intro slice_to_end) auto
  with True assms show ?thesis
    by (subst FindAll_loop.simps) (simp add: Let_def maxInt_max del: max_less_iff_conj)
next
  case False
  with assms show ?thesis
    by (subst FindAll_loop.simps) (simp add: Let_def maxInt_max del: max_less_iff_conj)
qed

lemma FindAll_first:
  assumes "MatcherString L w a subject flags = Inr m0" and "matches m0"
    and "index (ovector m0) 0 = Inr p0" and "index (ovector m0) 1 = Inr p1"
    and "slice subject p0 p1 = Inr g"
  shows "FindAll L w a subject flags =
           (if max 1 p1 < int (length subject)
            then (case MatchString L w m0 (drop (nat (max 1 p1)) subject) flags of
                    Inl e \<Rightarrow> Inl e
                  | Inr (ok, m1) \<Rightarrow>
                      FindAll_loop L w subject flags m1 (max 1 p1)
                        [\<lparr>Finding = g, Loc = [p0, p1]\<rparr>])
            else Inr ([\<lparr>Finding = g, Loc = [p0, p1]\<rparr>], err m0))"
  using FindAll_loop_first [OF assms(2,3,4,5), of L w flags] assms(1)
  by (simp only: FindAll_def sum.case)

lemma FindAll_result:
  assumes "FindAll L w a subject flags = Inr (res, e)"
  shows "length res \<le> max 1 (length subject) \<and>
         (\<forall>x\<in>set res. \<exists>l r. Loc x = [l, r] \<and> slice subject l r = Inr (Finding x)) \<and>
         (\<exists>m0. MatcherString L w a subject flags = Inr m0 \<and> (res = [] \<longleftrightarrow> \<not> matches m0))"
proof -
  from assms obtain m0 where m0: "MatcherString L w a subject flags = Inr m0"
    and l: "FindAll_loop L w subject flags m0 0 [] = Inr (res, e)"
    by (cases "MatcherString L w a subject flags") (simp_all add: FindAll_def)
  from FindAll_loop_bound [OF _ l]
  have b: "length res \<le> max 1 (length subject)"
    and el: "\<forall>x\<in>set res. \<exists>l r. Loc x = [l, r] \<and> slice subject l r = Inr (Finding x)"
    by auto
  have "res = [] \<longleftrightarrow> \<not> matches m0"
  proof (cases "matches m0")
    case False
    with l show ?thesis by (simp add: FindAll_loop_stop)
  next
    case True
    from True l obtain o0 where o0: "index (ovector m0) 0 = Inr o0"
      by (cases "index (ovector m0) 0") (simp_all add: FindAll_loop_panic)
    from True l o0 obtain o1 where o1: "index (ovector m0) 1 = Inr o1"
      by (cases "index (ovector m0) 1") (simp_all add: FindAll_loop_panic)
    from True l o0 o1 obtain f where f: "slice subject o0 o1 = Inr f"
      by (cases "slice subject (o0 + 0) (o1 + 0)") (simp_all add: FindAll_loop_panic)
    let ?x = "\<lparr>Finding = f, Loc = [o0, o1]\<rparr>"
    note step = FindAll_loop_first [OF True o0 o1 f, of L w flags]
    have "res \<noteq> []"
    proof (cases "max 1 o1 < int (length subject)")
      case False
      with step l show ?thesis by auto
    next
      case lt: True
      with step l have
        c: "(case MatchString L w m0 (drop (nat (max 1 o1)) subject) flags of
               Inl e \<Rightarrow> Inl e
             | Inr (ok, m1) \<Rightarrow> FindAll_loop L w subject flags m1 (max 1 o1) [?x]) = Inr (res, e)"
        by (simp only: if_True)
      then obtain ok m1 where
        r: "FindAll_loop L w subject flags m1 (max 1 o1) [?x] = Inr (res, e)"
        by (cases "MatchString L w m0 (drop (nat (max 1 o1)) subject) flags")
           (auto split: prod.splits)
      have "0 \<le> max 1 o1" by simp
      from FindAll_loop_bound [OF this r] show ?thesis by auto
    qed
    with True show ?thesis by simp
  qed
  with b el m0 show ?thesis by blast
qed

text \<open>
  Claim C6. \<open>FindAll\<close> makes a new matcher for the pattern, matches the whole subject
  once (\<open>MatcherString\<close>) and runs its loop from offset 0 with no matches found yet; a
  panic of the first attempt is its result, and when the first attempt does not match it
  returns no matches. The loop is a total function: its termination is proved with the
  distance from the offset to the end of the subject as the measure. From a non-negative
  offset, it stops with the matches found so far when the last attempt did not match;
  after a match it reports the text and the indices of the offset vector moved by the
  offset, adds \<open>max 1\<close> of the relative end to the offset (so exactly one after an
  empty match at the front of the suffix), and either matches again on the suffix from
  the new offset or, when the new offset has reached the length of the subject, stops.
  Every match that the loop or \<open>FindAll\<close> reports is a slice of the subject at its
  reported indices; the loop adds at most \<open>max 1 (length subject - offset)\<close> matches,
  so \<open>FindAll\<close> returns at most \<open>max 1 (length subject)\<close> of them, and it returns
  none exactly when the first attempt did not match.
\<close>

theorem FindAll_advances:
  assumes "0 \<le> offset"
  shows "(\<not> matches m \<longrightarrow> FindAll_loop L w subject flags m offset acc = Inr (acc, err m)) \<and>
         (matches m \<and> index (ovector m) 0 = Inr o0 \<and> index (ovector m) 1 = Inr o1 \<and>
          slice subject (o0 + offset) (o1 + offset) = Inr f \<longrightarrow>
            FindAll_loop L w subject flags m offset acc =
              (if offset + max 1 o1 < int (length subject)
               then (case MatchString L w m (drop (nat (offset + max 1 o1)) subject) flags of
                       Inl e \<Rightarrow> Inl e
                     | Inr (ok, m1) \<Rightarrow>
                         FindAll_loop L w subject flags m1 (offset + max 1 o1)
                           (acc @ [\<lparr>Finding = f, Loc = [o0 + offset, o1 + offset]\<rparr>]))
               else Inr (acc @ [\<lparr>Finding = f, Loc = [o0 + offset, o1 + offset]\<rparr>], err m))) \<and>
         (FindAll_loop L w subject flags m offset acc = Inr (res, e) \<longrightarrow>
            (\<exists>new. res = acc @ new \<and>
                   length new \<le> max 1 (nat (int (length subject) - offset)) \<and>
                   (\<forall>x\<in>set new. \<exists>l r. Loc x = [l, r] \<and> slice subject l r = Inr (Finding x)))) \<and>
         (FindAll L w a subject flags = Inr (res, e) \<longrightarrow> length res \<le> max 1 (length subject)) \<and>
         FindAll L w a subject flags =
           (case MatcherString L w a subject flags of
              Inl e \<Rightarrow> Inl e
            | Inr m0 \<Rightarrow> FindAll_loop L w subject flags m0 0 []) \<and>
         MatcherString L w a subject flags =
           (case Init L w new_Matcher a of
              Inl e \<Rightarrow> Inl e
            | Inr m \<Rightarrow> (case MatchString L w m subject flags of
                          Inl e \<Rightarrow> Inl e
                        | Inr (ok, m1) \<Rightarrow> Inr m1)) \<and>
         (MatcherString L w a subject flags = Inl p \<longrightarrow> FindAll L w a subject flags = Inl p) \<and>
         (MatcherString L w a subject flags = Inr m0 \<and> \<not> matches m0 \<longrightarrow>
            FindAll L w a subject flags = Inr ([], err m0)) \<and>
         (MatcherString L w a subject flags = Inr m0 \<and> matches m0 \<and>
          index (ovector m0) 0 = Inr p0 \<and> index (ovector m0) 1 = Inr p1 \<and>
          slice subject p0 p1 = Inr g \<longrightarrow>
            FindAll L w a subject flags =
              (if max 1 p1 < int (length subject)
               then (case MatchString L w m0 (drop (nat (max 1 p1)) subject) flags of
                       Inl e \<Rightarrow> Inl e
                     | Inr (ok, m1) \<Rightarrow>
                         FindAll_loop L w subject flags m1 (max 1 p1)
                           [\<lparr>Finding = g, Loc = [p0, p1]\<rparr>])
               else Inr ([\<lparr>Finding = g, Loc = [p0, p1]\<rparr>], err m0))) \<and>
         (FindAll L w a subject flags = Inr (res2, e2) \<longrightarrow>
            length res2 \<le> max 1 (length subject) \<and>
            (\<forall>x\<in>set res2. \<exists>l r. Loc x = [l, r] \<and> slice subject l r = Inr (Finding x)) \<and>
            (\<exists>m0. MatcherString L w a subject flags = Inr m0 \<and>
                  (res2 = [] \<longleftrightarrow> \<not> matches m0)))"
proof -
  have s1: "\<not> matches m \<longrightarrow> FindAll_loop L w subject flags m offset acc = Inr (acc, err m)"
    by (simp add: FindAll_loop_stop)
  have s2: "matches m \<and> index (ovector m) 0 = Inr o0 \<and> index (ovector m) 1 = Inr o1 \<and>
          slice subject (o0 + offset) (o1 + offset) = Inr f \<longrightarrow>
            FindAll_loop L w subject flags m offset acc =
              (if offset + max 1 o1 < int (length subject)
               then (case MatchString L w m (drop (nat (offset + max 1 o1)) subject) flags of
                       Inl e \<Rightarrow> Inl e
                     | Inr (ok, m1) \<Rightarrow>
                         FindAll_loop L w subject flags m1 (offset + max 1 o1)
                           (acc @ [\<lparr>Finding = f, Loc = [o0 + offset, o1 + offset]\<rparr>]))
               else Inr (acc @ [\<lparr>Finding = f, Loc = [o0 + offset, o1 + offset]\<rparr>], err m))"
    using assms FindAll_loop_step by blast
  have s3: "FindAll_loop L w subject flags m offset acc = Inr (res, e) \<longrightarrow>
            (\<exists>new. res = acc @ new \<and>
                   length new \<le> max 1 (nat (int (length subject) - offset)) \<and>
                   (\<forall>x\<in>set new. \<exists>l r. Loc x = [l, r] \<and> slice subject l r = Inr (Finding x)))"
    using assms FindAll_loop_bound by blast
  have s4: "FindAll L w a subject flags = Inr (res, e) \<longrightarrow> length res \<le> max 1 (length subject)"
    using FindAll_result by blast
  note s5 = FindAll_unfold [of L w a subject flags]
  note s6 = MatcherString_unfold [of L w a subject flags]
  have s7: "MatcherString L w a subject flags = Inl p \<longrightarrow> FindAll L w a subject flags = Inl p"
    by (simp add: FindAll_def)
  have s8: "MatcherString L w a subject flags = Inr m0 \<and> \<not> matches m0 \<longrightarrow>
            FindAll L w a subject flags = Inr ([], err m0)"
    by (simp add: FindAll_def FindAll_loop_stop)
  have s9: "MatcherString L w a subject flags = Inr m0 \<and> matches m0 \<and>
          index (ovector m0) 0 = Inr p0 \<and> index (ovector m0) 1 = Inr p1 \<and>
          slice subject p0 p1 = Inr g \<longrightarrow>
            FindAll L w a subject flags =
              (if max 1 p1 < int (length subject)
               then (case MatchString L w m0 (drop (nat (max 1 p1)) subject) flags of
                       Inl e \<Rightarrow> Inl e
                     | Inr (ok, m1) \<Rightarrow>
                         FindAll_loop L w subject flags m1 (max 1 p1)
                           [\<lparr>Finding = g, Loc = [p0, p1]\<rparr>])
               else Inr ([\<lparr>Finding = g, Loc = [p0, p1]\<rparr>], err m0))"
    using FindAll_first by blast
  have s10: "FindAll L w a subject flags = Inr (res2, e2) \<longrightarrow>
            length res2 \<le> max 1 (length subject) \<and>
            (\<forall>x\<in>set res2. \<exists>l r. Loc x = [l, r] \<and> slice subject l r = Inr (Finding x)) \<and>
            (\<exists>m0. MatcherString L w a subject flags = Inr m0 \<and>
                  (res2 = [] \<longleftrightarrow> \<not> matches m0))"
    using FindAll_result by blast
  show ?thesis
    apply (intro conjI)
    apply (rule s1)
    apply (rule s2)
    apply (rule s3)
    apply (rule s4)
    apply (rule s5)
    apply (rule s6)
    apply (rule s7)
    apply (rule s8)
    apply (rule s9)
    apply (rule s10)
    done
qed

lemma FindAll_loop_example:
  "FindAll_loop (example_lib 0 (star_run CHR ''a'')) example_world ''baaab'' 0
     (new_Matcher\<lparr>re := Some 0, ovector := [0, 0, 0], matches := True, subjects := ''baaab''\<rparr>)
     0 [] =
     Inr ([\<lparr>Finding = [], Loc = [0, 0]\<rparr>, \<lparr>Finding = ''aaa'', Loc = [1, 4]\<rparr>,
           \<lparr>Finding = [], Loc = [4, 4]\<rparr>], None)"
  by code_simp

lemma MatcherString_star_example:
  "MatcherString (example_lib 0 (star_run CHR ''a'')) example_world 0 ''baaab'' 0 =
     Inr (new_Matcher\<lparr>re := Some 0, ovector := [0, 0, 0], matches := True,
                     subjects := ''baaab''\<rparr>)"
  by code_simp

lemma MatcherString_literal_example:
  "MatcherString (example_lib 0 (literal_run CHR ''X'')) example_world 0 ''abc'' 0 =
     Inr (new_Matcher\<lparr>re := Some 0, ovector := [0, 0, 0], subjects := ''abc''\<rparr>)"
  by code_simp

theorem FindAll_advances_witness:
  "(0::int) \<le> 0 \<and>
   matches (new_Matcher\<lparr>re := Some 0, ovector := [0, 0, 0], matches := True,
                        subjects := ''baaab''\<rparr>) \<and>
   FindAll_loop (example_lib 0 (star_run CHR ''a'')) example_world ''baaab'' 0
     (new_Matcher\<lparr>re := Some 0, ovector := [0, 0, 0], matches := True, subjects := ''baaab''\<rparr>)
     0 [] =
     FindAll_loop (example_lib 0 (star_run CHR ''a'')) example_world ''baaab'' 0
       (new_Matcher\<lparr>re := Some 0, ovector := [0, 3, 0], matches := True, subjects := ''aaab''\<rparr>)
       1 [\<lparr>Finding = [], Loc = [0, 0]\<rparr>] \<and>
   FindAll_loop (example_lib 0 (star_run CHR ''a'')) example_world ''baaab'' 0
     (new_Matcher\<lparr>re := Some 0, ovector := [0, 0, 0], matches := True, subjects := ''baaab''\<rparr>)
     0 [] =
     Inr ([\<lparr>Finding = [], Loc = [0, 0]\<rparr>, \<lparr>Finding = ''aaa'', Loc = [1, 4]\<rparr>,
           \<lparr>Finding = [], Loc = [4, 4]\<rparr>], None) \<and>
   length [\<lparr>Finding = [], Loc = [0, 0]\<rparr>, \<lparr>Finding = ''aaa'', Loc = [1, 4]\<rparr>,
           \<lparr>Finding = [], Loc = [4, 4]\<rparr>] \<le> max 1 (nat (int (length ''baaab'') - 0)) \<and>
   MatcherString (example_lib 0 (star_run CHR ''a'')) example_world 0 ''baaab'' 0 =
     Inr (new_Matcher\<lparr>re := Some 0, ovector := [0, 0, 0], matches := True,
                     subjects := ''baaab''\<rparr>) \<and>
   FindAll (example_lib 0 (star_run CHR ''a'')) example_world 0 ''baaab'' 0 =
     FindAll_loop (example_lib 0 (star_run CHR ''a'')) example_world ''baaab'' 0
       (new_Matcher\<lparr>re := Some 0, ovector := [0, 3, 0], matches := True, subjects := ''aaab''\<rparr>)
       1 [\<lparr>Finding = [], Loc = [0, 0]\<rparr>] \<and>
   FindAll (example_lib 0 (star_run CHR ''a'')) example_world 0 ''baaab'' 0 =
     Inr ([\<lparr>Finding = [], Loc = [0, 0]\<rparr>, \<lparr>Finding = ''aaa'', Loc = [1, 4]\<rparr>,
           \<lparr>Finding = [], Loc = [4, 4]\<rparr>], None) \<and>
   MatcherString (example_lib 0 (literal_run CHR ''X'')) example_world 0 ''abc'' 0 =
     Inr (new_Matcher\<lparr>re := Some 0, ovector := [0, 0, 0], subjects := ''abc''\<rparr>) \<and>
   FindAll (example_lib 0 (literal_run CHR ''X'')) example_world 0 ''abc'' 0 = Inr ([], None)"
proof -
  let ?L = "example_lib 0 (star_run CHR ''a'')"
  let ?K = "example_lib 0 (literal_run CHR ''X'')"
  let ?m = "new_Matcher\<lparr>re := Some 0, ovector := [0, 0, 0], matches := True,
                        subjects := ''baaab''\<rparr>"
  let ?m1 = "new_Matcher\<lparr>re := Some 0, ovector := [0, 3, 0], matches := True,
                         subjects := ''aaab''\<rparr>"
  let ?n = "new_Matcher\<lparr>re := Some 0, ovector := [0, 0, 0], subjects := ''abc''\<rparr>"
  let ?res = "[\<lparr>Finding = [], Loc = [0, 0]\<rparr>, \<lparr>Finding = ''aaa'', Loc = [1, 4]\<rparr>,
               \<lparr>Finding = [], Loc = [4, 4]\<rparr>]"
  have z: "(0::int) \<le> 0" by simp
  have mt: "matches ?m" by simp
  have h: "index (ovector ?m) 0 = Inr 0 \<and> index (ovector ?m) 1 = Inr 0 \<and>
           slice ''baaab'' (0 + 0) (0 + 0) = Inr []"
    by (simp add: index_def slice_def)
  have ms: "MatchString ?L example_world ?m ''aaab'' 0 = Inr (True, ?m1)"
    by (simp add: MatchString_def ExecString_def exec_def uninitialized_def example_world_def
        example_lib_def star_run_def new_Matcher_def overwrite_def C_int_def record_rc_def
        matched_def)
  note t = FindAll_advances [OF z, where m = ?m and L = ?L and w = example_world
      and subject = "''baaab''" and flags = 0 and acc = "[]" and ?o0.0 = 0 and ?o1.0 = 0
      and f = "[]" and res = ?res and e = None and a = 0 and ?m0.0 = ?m and ?p0.0 = 0
      and ?p1.0 = 0 and g = "[]" and ?res2.0 = ?res and ?e2.0 = None]
  note r1 = t [THEN conjunct2]
  note r2 = r1 [THEN conjunct2]
  note r4 = r2 [THEN conjunct2, THEN conjunct2]
  from r1 [THEN conjunct1] mt h ms
  have step: "FindAll_loop ?L example_world ''baaab'' 0 ?m 0 [] =
      FindAll_loop ?L example_world ''baaab'' 0 ?m1 1 [\<lparr>Finding = [], Loc = [0, 0]\<rparr>]"
    by simp
  from r2 [THEN conjunct1] FindAll_loop_example
  have len: "length ?res \<le> max 1 (nat (int (length ''baaab'') - 0))" by simp
  have fl: "FindAll ?L example_world 0 ''baaab'' 0 = FindAll_loop ?L example_world ''baaab'' 0 ?m 0 []"
    by (simp only: r4 [THEN conjunct1] MatcherString_star_example sum.case)
  with step have fs: "FindAll ?L example_world 0 ''baaab'' 0 =
      FindAll_loop ?L example_world ''baaab'' 0 ?m1 1 [\<lparr>Finding = [], Loc = [0, 0]\<rparr>]"
    by (simp only:)
  from fl FindAll_loop_example
  have fr: "FindAll ?L example_world 0 ''baaab'' 0 = Inr (?res, None)" by (simp only:)
  note u = FindAll_advances [OF z, where L = ?K and w = example_world and subject = "''abc''"
      and flags = 0 and a = 0 and ?m0.0 = ?n]
  note u8 = u [THEN conjunct2, THEN conjunct2, THEN conjunct2, THEN conjunct2, THEN conjunct2,
      THEN conjunct2, THEN conjunct2, THEN conjunct1]
  have nn: "\<not> matches ?n" and ne: "err ?n = None" by (simp_all add: new_Matcher_def)
  from u8 MatcherString_literal_example nn
  have "FindAll ?K example_world 0 ''abc'' 0 = Inr ([], err ?n)" by blast
  with ne have fn: "FindAll ?K example_world 0 ''abc'' 0 = Inr ([], None)" by (simp only:)
  from z mt step FindAll_loop_example len MatcherString_star_example fs fr
    MatcherString_literal_example fn
  show ?thesis by (intro conjI)
qed

section \<open>Extract\<close>


lemma Extract_loop_keeps:
  "Extract_loop m i ex = Inr ex' \<Longrightarrow> 1 \<le> i \<Longrightarrow> length ex' = length ex \<and> ex' ! 0 = ex ! 0"
proof (induction m i ex rule: Extract_loop.induct)
  case (1 m i ex0)
  show ?case
  proof (cases "i \<le> groups m")
    case False
    with "1.prems" show ?thesis by (simp add: Extract_loop.simps)
  next
    case True
    with "1.prems" obtain x0 x1 s where
      a: "index (ovector m) (2 * i) = Inr x0" "index (ovector m) (2 * i + 1) = Inr x1"
         "slice_b (subjectb m) x0 x1 = Inr s" "0 \<le> i \<and> i < int (length ex0)"
      and r: "Extract_loop m (i + 1) (ex0[nat i := s]) = Inr ex'"
      by (subst (asm) Extract_loop.simps) (auto split: sum.splits if_splits)
    from "1.IH" [OF True a r] "1.prems"(2)
    show ?thesis by (simp add: nth_list_update)
  qed
qed

lemma Extract_first:
  assumes "Extract m = Inr (Some ex)"
  shows "int (length ex) = groups m + 1 \<and> ex ! 0 = subjectb m"
proof -
  let ?e = "replicate (nat (groups m + 1)) None"
  from assms have g: "matches m" "\<not> groups m + 1 < 0" "?e \<noteq> []"
    and l: "Extract_loop m 1 (?e[0 := subjectb m]) = Inr ex"
    by (auto simp: Extract_def Let_def split: if_splits sum.splits)
  from Extract_loop_keeps [OF l] g show ?thesis by auto
qed

lemma slice_b_negative: "x0 < 0 \<Longrightarrow> slice_b b x0 x1 = Inl SliceBounds"
  by (cases b) (simp_all add: slice_b_def slice_def)

lemma Extract_loop_unset_group:
  "index (ovector m) (2 * i) = Inr x0 \<Longrightarrow> x0 < 0 \<Longrightarrow> i \<le> groups m \<Longrightarrow> j \<le> i \<Longrightarrow>
     \<exists>e. Extract_loop m j ex = Inl e"
proof (induction m j ex rule: Extract_loop.induct)
  case (1 m j ex0)
  show ?case
  proof (cases "j = i")
    case True
    show ?thesis
    proof (cases "index (ovector m) (2 * i + 1)")
      case (Inl e)
      with True "1.prems" show ?thesis by (subst Extract_loop.simps) simp
    next
      case (Inr x1)
      with True "1.prems" show ?thesis
        by (subst Extract_loop.simps) (simp add: slice_b_negative)
    qed
  next
    case False
    with "1.prems" have lt: "j + 1 \<le> i" and le: "j \<le> groups m" by auto
    show ?thesis
    proof (cases "Extract_loop m j ex0")
      case (Inl e)
      then show ?thesis by blast
    next
      case (Inr r)
      with le obtain y0 y1 s where
        a: "index (ovector m) (2 * j) = Inr y0" "index (ovector m) (2 * j + 1) = Inr y1"
           "slice_b (subjectb m) y0 y1 = Inr s" "0 \<le> j \<and> j < int (length ex0)"
        and r: "Extract_loop m (j + 1) (ex0[nat j := s]) = Inr r"
        by (subst (asm) Extract_loop.simps) (auto split: sum.splits if_splits)
      from "1.IH" [OF le a "1.prems"(1,2,3) lt] r show ?thesis by simp
    qed
  qed
qed

lemma Extract_unset_group_panics:
  assumes "matches m" and "1 \<le> i" and "i \<le> groups m"
      and "index (ovector m) (2 * i) = Inr x0" and "x0 < 0"
  shows "\<exists>e. Extract m = Inl e"
proof -
  from Extract_loop_unset_group [OF assms(4,5,3) assms(2)]
  obtain e where "Extract_loop m 1 ((replicate (nat (groups m + 1)) None)[0 := subjectb m]) = Inl e"
    by blast
  with assms(1,2,3) show ?thesis by (simp add: Extract_def Let_def)
qed

text \<open>
  Claim C1, on the code. After the pattern \<open>b\<close> has matched in the subject \<open>abc\<close>,
  the whole-pattern match is \<open>b\<close> (\<open>Group 0\<close>), while \<open>Extract\<close> returns the one
  range \<open>abc\<close>: index 0 holds the subject, not the match. After a pattern with one
  optional group has matched \<open>c\<close> with the group unset (slots 2 and 3 are \<open>-1\<close>),
  \<open>Group 1\<close> is nil, while \<open>Extract\<close> and \<open>ExtractString\<close> panic in the slice
  expression instead of reporting the group as absent.
\<close>

theorem Extract_whole_subject:
  "Regexp_Matcher (example_lib 0 (literal_run CHR ''b'')) example_world 0 (Some ''abc'') 0 =
     Inr (new_Matcher\<lparr>re := Some 0, ovector := [1, 2, 0], matches := True,
                     subjectb := Some ''abc''\<rparr>) \<and>
   Group (new_Matcher\<lparr>re := Some 0, ovector := [1, 2, 0], matches := True,
                     subjectb := Some ''abc''\<rparr>) 0 = Inr (Some ''b'') \<and>
   Extract (new_Matcher\<lparr>re := Some 0, ovector := [1, 2, 0], matches := True,
                     subjectb := Some ''abc''\<rparr>) = Inr (Some [Some ''abc'']) \<and>
   Regexp_Matcher (example_lib 1 (fixed_run 1 [0, 1, - 1, - 1])) example_world 0 (Some ''c'') 0 =
     Inr (new_Matcher\<lparr>re := Some 0, groups := 1, ovector := [0, 1, - 1, - 1, 0, 0],
                     matches := True, subjectb := Some ''c''\<rparr>) \<and>
   Group (new_Matcher\<lparr>re := Some 0, groups := 1, ovector := [0, 1, - 1, - 1, 0, 0],
                     matches := True, subjectb := Some ''c''\<rparr>) 1 = Inr None \<and>
   Extract (new_Matcher\<lparr>re := Some 0, groups := 1, ovector := [0, 1, - 1, - 1, 0, 0],
                     matches := True, subjectb := Some ''c''\<rparr>) = Inl SliceBounds \<and>
   MatcherString (example_lib 1 (fixed_run 1 [0, 1, - 1, - 1])) example_world 0 ''c'' 0 =
     Inr (new_Matcher\<lparr>re := Some 0, groups := 1, ovector := [0, 1, - 1, - 1, 0, 0],
                     matches := True, subjects := ''c''\<rparr>) \<and>
   ExtractString (new_Matcher\<lparr>re := Some 0, groups := 1, ovector := [0, 1, - 1, - 1, 0, 0],
                     matches := True, subjects := ''c''\<rparr>) = Inl SliceBounds"
  by code_simp

section \<open>ReplaceAll\<close>

lemma ReplaceAll_loop_never_returns:
  assumes "matches m"
      and "\<And>r. \<exists>r'. ReplaceAll_body L w repl flags m b r = Inr (m, b, r')"
  shows "ReplaceAll_loop L w repl flags m b r = None"
proof (rule ccontr)
  assume "ReplaceAll_loop L w repl flags m b r \<noteq> None"
  then obtain y where y: "ReplaceAll_loop L w repl flags m b r = Some y" by auto
  define Q where
    "Q = (\<lambda>L' w' repl' flags' m' b' (r' :: bytes) (y' :: panic + bytes \<times> string option).
            \<not> (L' = L \<and> w' = w \<and> repl' = repl \<and> flags' = flags \<and> m' = m \<and> b' = b))"
  have "Q L w repl flags m b r y"
    apply (rule ReplaceAll_loop.raw_induct [where P = Q, OF _ y])
    subgoal premises prems for loop L' w' repl' flags' m' b' r' y'
    proof -
      show ?thesis unfolding Q_def
      proof
        assume eq: "L' = L \<and> w' = w \<and> repl' = repl \<and> flags' = flags \<and> m' = m \<and> b' = b"
        from assms(2) [of r'] obtain r2 where
          "ReplaceAll_body L w repl flags m b r' = Inr (m, b, r2)" by blast
        with prems(2) eq assms(1) have "loop L w repl flags m b r2 = Some y'" by simp
        from prems(1) [OF this] show False by (simp add: Q_def)
      qed
    qed
    done
  then show False by (simp add: Q_def)
qed

lemma ReplaceAll_scenario:
  "ReplaceAll (example_lib 0 (literal_run CHR ''X'')) example_world 0 (Some ''aXbXc'') ''-'' 0 =
     Some (Inr (''a-b-c'', None))"
  by code_simp


lemma ReplaceAll_body_stuck:
  "ReplaceAll_body (example_lib 0 (star_run CHR ''a'')) example_world ''-'' 0
     (new_Matcher\<lparr>re := Some 0, ovector := [0, 0, 0], matches := True, subjectb := Some ''b''\<rparr>)
     (Some ''b'') r =
   Inr (new_Matcher\<lparr>re := Some 0, ovector := [0, 0, 0], matches := True, subjectb := Some ''b''\<rparr>,
        Some ''b'', r @ ''-'')"
  by (simp add: ReplaceAll_body_def index_def slice_b_def slice_def len_b_def Match_def Exec_def
      exec_def uninitialized_def example_world_def example_lib_def star_run_def new_Matcher_def
      overwrite_def C_int_def record_rc_def matched_def)

lemma Regexp_Matcher_star_example:
  "Regexp_Matcher (example_lib 0 (star_run CHR ''a'')) example_world 0 (Some ''b'') 0 =
     Inr (new_Matcher\<lparr>re := Some 0, ovector := [0, 0, 0], matches := True,
                     subjectb := Some ''b''\<rparr>)"
  by code_simp

text \<open>
  Claim C2, on the code. With the pattern \<open>X\<close>, \<open>ReplaceAll\<close> turns \<open>aXbXc\<close> into
  \<open>a-b-c\<close>. With the pattern \<open>a*\<close> and the subject \<open>b\<close> every attempt matches the
  empty string at the front, the subject is never shortened, and the loop of
  \<open>ReplaceAll\<close> does not return.
\<close>

theorem ReplaceAll_zero_width_never_returns:
  "ReplaceAll (example_lib 0 (literal_run CHR ''X'')) example_world 0 (Some ''aXbXc'') ''-'' 0 =
     Some (Inr (''a-b-c'', None)) \<and>
   ReplaceAll (example_lib 0 (star_run CHR ''a'')) example_world 0 (Some ''b'') ''-'' 0 = None"
proof -
  let ?m = "new_Matcher\<lparr>re := Some 0, ovector := [0, 0, 0], matches := True,
                        subjectb := Some ''b''\<rparr>"
  have "matches ?m" by simp
  moreover have "\<And>r. \<exists>r'. ReplaceAll_body (example_lib 0 (star_run CHR ''a'')) example_world
                            ''-'' 0 ?m (Some ''b'') r = Inr (?m, Some ''b'', r')"
    using ReplaceAll_body_stuck by blast
  ultimately have "ReplaceAll_loop (example_lib 0 (star_run CHR ''a'')) example_world ''-'' 0 ?m
                     (Some ''b'') [] = None"
    by (rule ReplaceAll_loop_never_returns)
  then have "ReplaceAll (example_lib 0 (star_run CHR ''a'')) example_world 0 (Some ''b'') ''-'' 0
               = None"
    by (simp add: ReplaceAll_def Regexp_Matcher_star_example)
  with ReplaceAll_scenario show ?thesis by blast
qed

end
